theory Spec2Isabelle
  imports Complex_Main "HOL-Library.Multiset"
begin

section \<open>Rotary position embedding: the kernel, its host function and the table builders\<close>

text \<open>
  A shallow embedding of \<^verbatim>\<open>kernels/rope.py\<close>.

  Device memory is a heap of buffers: a pointer is the index of a buffer and an offset
  indexes into it, so \<^verbatim>\<open>ptr + offset\<close> of the source is the pair of a buffer and an
  offset. An access through a pointer that leaves its buffer is undefined on the device;
  here it is the error \<open>OutOfBounds\<close>, so that every load and store of the kernel is
  checked. The element type is any type with \<open>0\<close>, \<open>+\<close>, \<open>-\<close> and \<open>*\<close>: no law of
  arithmetic is assumed of the kernel's element operations.
\<close>

datatype error = ValueError | AssertionError | CompilationError | OutOfBounds | DivisionByZero

definition bind_err :: "error + 'a \<Rightarrow> ('a \<Rightarrow> error + 'b) \<Rightarrow> error + 'b" where
  "bind_err r f = (case r of Inl e \<Rightarrow> Inl e | Inr v \<Rightarrow> f v)"

type_synonym 'a heap = "'a list list"

subsection \<open>Masked block loads and stores\<close>

text \<open>
  \<^verbatim>\<open>tl.load(ptr + offsets, mask=mask, other=0.0)\<close>: one value per lane; a lane whose mask
  is false reads nothing and yields \<open>0\<close>.
\<close>

definition tl_load :: "'a::zero heap \<Rightarrow> nat \<Rightarrow> nat list \<Rightarrow> bool list \<Rightarrow> error + 'a list" where
  "tl_load mem ptr offsets msk =
     (if list_all (\<lambda>(off, m). m \<longrightarrow> ptr < length mem \<and> off < length (mem ! ptr)) (zip offsets msk)
      then Inr (map (\<lambda>(off, m). if m then mem ! ptr ! off else 0) (zip offsets msk))
      else Inl OutOfBounds)"

text \<open>
  \<^verbatim>\<open>tl.store(ptr + offsets, value, mask=mask)\<close>: a lane whose mask is false writes
  nothing.
\<close>

definition store_lane :: "nat \<times> 'a \<times> bool \<Rightarrow> 'a list \<Rightarrow> 'a list" where
  "store_lane l buf = (case l of (off, v, m) \<Rightarrow> if m then buf[off := v] else buf)"

definition tl_store :: "'a heap \<Rightarrow> nat \<Rightarrow> nat list \<Rightarrow> 'a list \<Rightarrow> bool list \<Rightarrow> error + 'a heap" where
  "tl_store mem ptr offsets val msk =
     (if list_all (\<lambda>(off, m). m \<longrightarrow> ptr < length mem \<and> off < length (mem ! ptr)) (zip offsets msk)
      then Inr (mem[ptr := fold store_lane (zip offsets (zip val msk)) (mem ! ptr)])
      else Inl OutOfBounds)"

subsection \<open>The kernel \<^verbatim>\<open>rope_kernel_fw\<close>\<close>

record kernel_args =
  input_ptr :: nat
  in_seq_len_stride :: nat
  in_batch_stride :: nat
  output_ptr :: nat
  cos_ptr :: nat
  sin_ptr :: nat
  cos_stride :: nat
  sin_stride :: nat
  seq_len :: nat
  head_dim :: nat
  BLOCK_SIZE :: nat
  BATCH_NUM :: nat

definition head_dim_offset :: "kernel_args \<Rightarrow> nat list" where
  "head_dim_offset a = [0..<BLOCK_SIZE a]"

definition head_dim_mid :: "kernel_args \<Rightarrow> nat" where
  "head_dim_mid a = head_dim a div 2"

text \<open>The source's \<^verbatim>\<open>mask\<close> (line 20).\<close>

definition lane_mask :: "kernel_args \<Rightarrow> bool list" where
  "lane_mask a = map (\<lambda>off. off < head_dim_mid a) (head_dim_offset a)"

definition cos_offset :: "kernel_args \<Rightarrow> nat \<Rightarrow> nat list" where
  "cos_offset a pid_seq = map (\<lambda>off. (pid_seq mod seq_len a) * cos_stride a + off) (head_dim_offset a)"

definition sin_offset :: "kernel_args \<Rightarrow> nat \<Rightarrow> nat list" where
  "sin_offset a pid_seq = map (\<lambda>off. (pid_seq mod seq_len a) * sin_stride a + off) (head_dim_offset a)"

definition x1_offset :: "kernel_args \<Rightarrow> nat \<Rightarrow> nat \<Rightarrow> nat \<Rightarrow> nat list" where
  "x1_offset a pid_seq pid_head batch_idx =
     map (\<lambda>off. pid_seq * in_seq_len_stride a + batch_idx * in_batch_stride a
                 + pid_head * head_dim a + off) (head_dim_offset a)"

definition x2_offset :: "kernel_args \<Rightarrow> nat \<Rightarrow> nat \<Rightarrow> nat \<Rightarrow> nat list" where
  "x2_offset a pid_seq pid_head batch_idx =
     map (\<lambda>off. pid_seq * in_seq_len_stride a + batch_idx * in_batch_stride a
                 + pid_head * head_dim a + head_dim_mid a + off) (head_dim_offset a)"

text \<open>The elementwise block arithmetic of lines 37 and 38.\<close>

definition y1 :: "'a::{times,minus} list \<Rightarrow> 'a list \<Rightarrow> 'a list \<Rightarrow> 'a list \<Rightarrow> 'a list" where
  "y1 x1 x2 cosv sinv = map2 (-) (map2 (*) x1 cosv) (map2 (*) x2 sinv)"

definition y2 :: "'a::{times,plus} list \<Rightarrow> 'a list \<Rightarrow> 'a list \<Rightarrow> 'a list \<Rightarrow> 'a list" where
  "y2 x1 x2 cosv sinv = map2 (+) (map2 (*) x1 sinv) (map2 (*) x2 cosv)"

text \<open>One iteration of the loop over \<open>batch_idx\<close> (lines 29 to 41).\<close>

definition batch_step ::
  "kernel_args \<Rightarrow> nat \<Rightarrow> nat \<Rightarrow> 'a::{zero,plus,minus,times} list \<Rightarrow> 'a list \<Rightarrow> nat \<Rightarrow> 'a heap
     \<Rightarrow> error + 'a heap" where
  "batch_step a pid_seq pid_head cosv sinv batch_idx mem =
     bind_err (tl_load mem (input_ptr a) (x1_offset a pid_seq pid_head batch_idx) (lane_mask a)) (\<lambda>x1.
     bind_err (tl_load mem (input_ptr a) (x2_offset a pid_seq pid_head batch_idx) (lane_mask a)) (\<lambda>x2.
     bind_err (tl_store mem (output_ptr a) (x1_offset a pid_seq pid_head batch_idx)
                 (y1 x1 x2 cosv sinv) (lane_mask a)) (\<lambda>mem1.
     tl_store mem1 (output_ptr a) (x2_offset a pid_seq pid_head batch_idx)
                 (y2 x1 x2 cosv sinv) (lane_mask a))))"

text \<open>
  The loop itself, over a list of batch indices. The source runs it over
  \<^verbatim>\<open>tl.static_range(0, BATCH_NUM)\<close>; the list is a parameter so that other orders of
  the same iterations can be compared with it.
\<close>

fun batch_loop ::
  "kernel_args \<Rightarrow> nat \<Rightarrow> nat \<Rightarrow> 'a::{zero,plus,minus,times} list \<Rightarrow> 'a list \<Rightarrow> nat list \<Rightarrow> 'a heap
     \<Rightarrow> error + 'a heap" where
  "batch_loop a pid_seq pid_head cosv sinv [] mem = Inr mem"
| "batch_loop a pid_seq pid_head cosv sinv (batch_idx # rest) mem =
     bind_err (batch_step a pid_seq pid_head cosv sinv batch_idx mem)
       (batch_loop a pid_seq pid_head cosv sinv rest)"

text \<open>
  One program instance \<open>(pid_seq, pid_head)\<close> of the kernel, with the order of its batch
  iterations given. The remainder \<^verbatim>\<open>pid_seq % seq_len\<close> by zero has no defined value on the
  device; it is the error \<open>DivisionByZero\<close>.
\<close>

definition kernel_unit ::
  "kernel_args \<Rightarrow> nat \<Rightarrow> nat \<Rightarrow> nat list \<Rightarrow> 'a::{zero,plus,minus,times} heap \<Rightarrow> error + 'a heap" where
  "kernel_unit a pid_seq pid_head batches mem =
     (if seq_len a = 0 then Inl DivisionByZero
      else
        bind_err (tl_load mem (cos_ptr a) (cos_offset a pid_seq) (lane_mask a)) (\<lambda>cosv.
        bind_err (tl_load mem (sin_ptr a) (sin_offset a pid_seq) (lane_mask a)) (\<lambda>sinv.
        batch_loop a pid_seq pid_head cosv sinv batches mem)))"

definition rope_kernel_fw ::
  "kernel_args \<Rightarrow> nat \<Rightarrow> nat \<Rightarrow> 'a::{zero,plus,minus,times} heap \<Rightarrow> error + 'a heap" where
  "rope_kernel_fw a pid_seq pid_head mem = kernel_unit a pid_seq pid_head [0..<BATCH_NUM a] mem"

subsection \<open>Launching the kernel over a grid\<close>

text \<open>
  \<^verbatim>\<open>rope_kernel_fw[grid](...)\<close> runs one program instance for every
  \<open>(pid_seq, pid_head)\<close> of the grid. A schedule lists the instances in the order they run,
  each with the order of its batch iterations; \<open>launch\<close> is the schedule that runs the
  grid row by row with the batch order of the source.
\<close>

fun run_schedule ::
  "kernel_args \<Rightarrow> ((nat \<times> nat) \<times> nat list) list \<Rightarrow> 'a::{zero,plus,minus,times} heap
     \<Rightarrow> error + 'a heap" where
  "run_schedule a [] mem = Inr mem"
| "run_schedule a (u # us) mem =
     bind_err (kernel_unit a (fst (fst u)) (snd (fst u)) (snd u) mem) (run_schedule a us)"

definition grid_units :: "nat \<times> nat \<Rightarrow> (nat \<times> nat) list" where
  "grid_units grid = List.product [0..<fst grid] [0..<snd grid]"

definition launch ::
  "kernel_args \<Rightarrow> nat \<times> nat \<Rightarrow> 'a::{zero,plus,minus,times} heap \<Rightarrow> error + 'a heap" where
  "launch a grid mem = run_schedule a (map (\<lambda>u. (u, [0..<BATCH_NUM a])) (grid_units grid)) mem"

subsection \<open>Tensors and the host function \<^verbatim>\<open>rope\<close>\<close>

text \<open>
  A four-dimensional tensor is a view of a buffer: a data pointer, the four sizes
  (\<^verbatim>\<open>t.shape\<close>) and the four strides (\<^verbatim>\<open>t.stride(i)\<close>), in elements.
\<close>

record tensor =
  data_ptr :: nat
  size0 :: nat
  size1 :: nat
  size2 :: nat
  size3 :: nat
  stride0 :: nat
  stride1 :: nat
  stride2 :: nat
  stride3 :: nat

text \<open>\<^verbatim>\<open>t.transpose(0, 1)\<close>: a view of the same buffer with axes 0 and 1 exchanged.\<close>

definition transpose01 :: "tensor \<Rightarrow> tensor" where
  "transpose01 t = t\<lparr>size0 := size1 t, size1 := size0 t, stride0 := stride1 t, stride1 := stride0 t\<rparr>"

definition numel :: "tensor \<Rightarrow> nat" where
  "numel t = size0 t * size1 t * size2 t * size3 t"

text \<open>
  \<^verbatim>\<open>torch.empty_like(t)\<close> belongs to the library, not to the repository. As the library
  has it, the result has the shape of \<open>t\<close> and fresh storage of \<open>numel t\<close> elements whose
  contents are not initialised (here: whatever the argument \<open>uninit\<close> gives). Its strides
  are those of \<open>t\<close> when \<open>t\<close> is non-overlapping and dense; otherwise they are dense strides
  that keep the order of the strides of \<open>t\<close> (the library's \<^verbatim>\<open>infer_dense_strides\<close>: an
  insertion sort of the axes, innermost first, in which a stride of 0 compares as
  undecided and an axis of size 0 counts as one of size 1).
\<close>

fun dense_from :: "nat \<Rightarrow> (nat \<times> nat) list \<Rightarrow> bool" where
  "dense_from req [] = True"
| "dense_from req (d # ds) = (fst d = req \<and> dense_from (req * snd d) ds)"

definition is_non_overlapping_and_dense :: "tensor \<Rightarrow> bool" where
  "is_non_overlapping_and_dense t =
     dense_from 1 (sort_key fst (filter (\<lambda>d. 2 \<le> snd d)
       [(stride0 t, size0 t), (stride1 t, size1 t), (stride2 t, size2 t), (stride3 t, size3 t)]))"

definition should_swap :: "nat list \<Rightarrow> nat list \<Rightarrow> nat \<Rightarrow> nat \<Rightarrow> int" where
  "should_swap sizes strides dim0 dim1 =
     (if strides ! dim0 = 0 \<or> strides ! dim1 = 0 then 0
      else if strides ! dim0 < strides ! dim1 then - 1
      else if strides ! dim0 > strides ! dim1 then 1
      else if sizes ! dim0 > sizes ! dim1 then 1
      else 0)"

fun sift :: "nat list \<Rightarrow> nat list \<Rightarrow> nat list \<Rightarrow> nat \<Rightarrow> nat \<Rightarrow> nat list" where
  "sift sizes strides perm dim1 0 = perm"
| "sift sizes strides perm dim1 (Suc dim0) =
     (let comparison = should_swap sizes strides (perm ! dim0) (perm ! dim1)
      in if comparison > 0
         then sift sizes strides (perm[dim0 := perm ! dim1, dim1 := perm ! dim0]) dim0 dim0
         else if comparison < 0 then perm
         else sift sizes strides perm dim1 dim0)"

fun assign_strides :: "nat list \<Rightarrow> nat list \<Rightarrow> nat \<Rightarrow> nat list \<Rightarrow> nat list" where
  "assign_strides sizes [] curr_stride out_strides = out_strides"
| "assign_strides sizes (idx # perm) curr_stride out_strides =
     assign_strides sizes perm
       (if 1 < sizes ! idx then curr_stride * sizes ! idx else curr_stride)
       (out_strides[idx := curr_stride])"

definition infer_dense_strides :: "nat list \<Rightarrow> nat list \<Rightarrow> nat list" where
  "infer_dense_strides sizes strides =
     assign_strides sizes
       (fold (\<lambda>i perm. sift sizes strides perm i i) [1..<length sizes] (rev [0..<length sizes]))
       1 (replicate (length sizes) 0)"

definition dense_like :: "tensor \<Rightarrow> tensor" where
  "dense_like t =
     (let out_strides = infer_dense_strides [size0 t, size1 t, size2 t, size3 t]
                          [stride0 t, stride1 t, stride2 t, stride3 t]
      in t\<lparr>stride0 := out_strides ! 0, stride1 := out_strides ! 1,
            stride2 := out_strides ! 2, stride3 := out_strides ! 3\<rparr>)"

definition empty_like :: "(nat \<Rightarrow> 'a) \<Rightarrow> tensor \<Rightarrow> 'a heap \<Rightarrow> tensor \<times> 'a heap" where
  "empty_like uninit t mem =
     ((if is_non_overlapping_and_dense t then t else dense_like t)\<lparr>data_ptr := length mem\<rparr>,
      mem @ [map uninit [0..<numel t]])"

text \<open>
  The table of angles \<open>freqs\<close> is a two-dimensional, row-major tensor: a data pointer, the
  number of rows and the number of columns. \<^verbatim>\<open>freqs[:seq_len]\<close> keeps the first rows;
  \<^verbatim>\<open>torch.cos(freqs).to(t.dtype)\<close> and its sibling allocate a new table. The
  elementwise functions are the parameters \<open>cosf\<close> and \<open>sinf\<close>.
\<close>

record table =
  tbl_ptr :: nat
  tbl_rows :: nat
  tbl_cols :: nat

definition slice_rows :: "table \<Rightarrow> nat \<Rightarrow> table" where
  "slice_rows f n = f\<lparr>tbl_rows := min (tbl_rows f) n\<rparr>"

definition tbl_stride0 :: "table \<Rightarrow> nat" where
  "tbl_stride0 f = max 1 (tbl_cols f)"

definition map_table :: "('a \<Rightarrow> 'a) \<Rightarrow> table \<Rightarrow> 'a heap \<Rightarrow> table \<times> 'a heap" where
  "map_table g f mem =
     (f\<lparr>tbl_ptr := length mem\<rparr>, mem @ [map g (take (tbl_rows f * tbl_cols f) (mem ! tbl_ptr f))])"

text \<open>
  \<^verbatim>\<open>triton.next_power_of_2\<close> belongs to the library, not to the repository. The library
  computes it by bit manipulation on \<open>n - 1\<close>: for an argument from 1 up to the 64-bit sizes
  of tensors it is the smallest power of two greater than or equal to the argument, and
  for the argument 0 it is 0.
\<close>

function pow2_from :: "nat \<Rightarrow> nat \<Rightarrow> nat" where
  "pow2_from p n = (if n \<le> p \<or> p = 0 then p else pow2_from (2 * p) n)"
  by pat_completeness auto
termination
  by (relation "measure (\<lambda>(p, n). n - p)") auto

declare pow2_from.simps [simp del]

definition next_power_of_2 :: "nat \<Rightarrow> nat" where
  "next_power_of_2 n = (if n = 0 then 0 else pow2_from 1 n)"

text \<open>
  The kernel is compiled for its constants \<open>BLOCK_SIZE\<close> and \<open>BATCH_NUM\<close> when it is
  launched. The compiler refuses \<^verbatim>\<open>tl.arange(0, BLOCK_SIZE)\<close> of line 17 unless
  \<open>BLOCK_SIZE\<close> is positive and a power of two (it raises a \<open>ValueError\<close>, which Triton
  reports as a compilation error); then no program instance runs.
\<close>

definition arange_accepted :: "nat \<Rightarrow> bool" where
  "arange_accepted n = (0 < n \<and> pow2_from 1 n = n)"

definition compile_and_launch ::
  "kernel_args \<Rightarrow> nat \<times> nat \<Rightarrow> 'a::{zero,plus,minus,times} heap \<Rightarrow> error + 'a heap" where
  "compile_and_launch a grid mem =
     (if arange_accepted (BLOCK_SIZE a) then launch a grid mem else Inl CompilationError)"

text \<open>
  The attributes that \<open>rope\<close> sets on its argument \<open>ctx\<close>, and the state a call works
  on: the heap and that object.
\<close>

record ctx_attrs =
  ctx_cos :: "table option"
  ctx_sin :: "table option"
  ctx_BLOCK_SIZE :: "nat option"
  ctx_tensor_format :: "string option"

record 'a state =
  heap :: "'a heap"
  ctx :: ctx_attrs

text \<open>The arguments of the kernel launch of lines 69 to 80.\<close>

definition launch_args :: "tensor \<Rightarrow> tensor \<Rightarrow> table \<Rightarrow> table \<Rightarrow> kernel_args" where
  "launch_args t output cos_t sin_t =
     \<lparr>input_ptr = data_ptr t,
      in_seq_len_stride = stride0 t,
      in_batch_stride = stride1 t,
      output_ptr = data_ptr output,
      cos_ptr = tbl_ptr cos_t,
      sin_ptr = tbl_ptr sin_t,
      cos_stride = tbl_stride0 cos_t,
      sin_stride = tbl_stride0 sin_t,
      seq_len = size0 t,
      head_dim = size3 t,
      BLOCK_SIZE = next_power_of_2 (size3 t div 2),
      BATCH_NUM = size1 t\<rparr>"

text \<open>
  Lines 58 to 89, for the tensor \<open>t\<close> already in the kernel's axis order. The unused
  argument \<^verbatim>\<open>cu_seqlens\<close> is left out.
\<close>

definition rope_sbhd ::
  "('a \<Rightarrow> 'a) \<Rightarrow> ('a \<Rightarrow> 'a) \<Rightarrow> (nat \<Rightarrow> 'a) \<Rightarrow> 'a::{zero,plus,minus,times} state \<Rightarrow> tensor \<Rightarrow> table
     \<Rightarrow> string \<Rightarrow> error + (tensor \<times> 'a state)" where
  "rope_sbhd cosf sinf uninit st t freqs tensor_format =
     (let (output, mem1) = empty_like uninit t (heap st);
          grid = (size0 t, size2 t);
          freqs1 = slice_rows freqs (size0 t);
          (cos_t, mem2) = map_table cosf freqs1 mem1;
          (sin_t, mem3) = map_table sinf freqs1 mem2
      in bind_err (compile_and_launch (launch_args t output cos_t sin_t) grid mem3) (\<lambda>mem4.
           Inr (if tensor_format = ''bshd'' then transpose01 output else output,
                \<lparr>heap = mem4,
                 ctx = \<lparr>ctx_cos = Some cos_t, ctx_sin = Some sin_t,
                        ctx_BLOCK_SIZE = Some (next_power_of_2 (size3 t div 2)),
                        ctx_tensor_format = Some tensor_format\<rparr>\<rparr>)))"

definition rope ::
  "('a \<Rightarrow> 'a) \<Rightarrow> ('a \<Rightarrow> 'a) \<Rightarrow> (nat \<Rightarrow> 'a) \<Rightarrow> 'a::{zero,plus,minus,times} state \<Rightarrow> tensor \<Rightarrow> table
     \<Rightarrow> string \<Rightarrow> error + (tensor \<times> 'a state)" where
  "rope cosf sinf uninit st t freqs tensor_format =
     (if tensor_format = ''bshd'' then rope_sbhd cosf sinf uninit st (transpose01 t) freqs tensor_format
      else if tensor_format \<noteq> ''sbhd'' then Inl ValueError
      else rope_sbhd cosf sinf uninit st t freqs tensor_format)"

subsection \<open>The frequency table builders\<close>

text \<open>
  The builders compute in floating point; here their arithmetic is that of the real and
  complex numbers, with \<open>powr\<close> for \<^verbatim>\<open>**\<close>. Sizes are natural numbers. The line that
  \<open>compute_theta\<close> prints is returned with its result. Parameters whose names are constants
  already carry a prime; the \<^verbatim>\<open>device\<close> arguments are left out.
\<close>

datatype message = DimMustBeEven

text \<open>\<^verbatim>\<open>torch.arange(start, stop, step)\<close>.\<close>

definition arange :: "nat \<Rightarrow> nat \<Rightarrow> nat \<Rightarrow> real list" where
  "arange start stop step = map (\<lambda>j. real (start + j * step)) [0..<(stop - start + step - 1) div step]"

definition outer :: "real list \<Rightarrow> real list \<Rightarrow> real list list" where
  "outer m theta = map (\<lambda>mi. map (\<lambda>th. mi * th) theta) m"

definition ones_like :: "real list list \<Rightarrow> real list list" where
  "ones_like x = map (map (\<lambda>_. 1)) x"

definition polar :: "real list list \<Rightarrow> real list list \<Rightarrow> complex list list" where
  "polar absv angle = map2 (map2 (\<lambda>r w. Complex (r * cos w) (r * sin w))) absv angle"

definition precompute_theta_pos_frequencies :: "nat \<Rightarrow> nat \<Rightarrow> real \<Rightarrow> error + complex list list" where
  "precompute_theta_pos_frequencies head_dim' seq_len' theta =
     (if head_dim' mod 2 \<noteq> 0 then Inl AssertionError
      else
        let theta_numerator = arange 0 head_dim' 2;
            theta_v = map (\<lambda>n. 1 / (theta powr (n / real head_dim'))) theta_numerator;
            m = arange 0 seq_len' 1;
            freqs = outer m theta_v
        in Inr (polar (ones_like freqs) freqs))"

definition compute_theta :: "nat \<Rightarrow> real \<Rightarrow> message list \<times> real list" where
  "compute_theta dim' base =
     (if dim' mod 2 \<noteq> 0 then [DimMustBeEven] else [],
      map (\<lambda>i. base powr (- 2 * (i - 1) / real dim')) (arange 1 (dim' div 2 + 1) 1))"

definition precompute_freqs_cis :: "nat \<Rightarrow> nat \<Rightarrow> real \<Rightarrow> message list \<times> complex list list" where
  "precompute_freqs_cis dim' seq_len' base =
     (let (printed, theta) = compute_theta dim' base;
          m = arange 0 seq_len' 1;
          m_theta = outer m theta
      in (printed, polar (ones_like m_theta) m_theta))"

section \<open>Notions of the statements and of their proofs\<close>

text \<open>
  The stores of a launch as a list of writes \<open>(offset, value)\<close> to the output buffer,
  applied in order.
\<close>

definition apply_writes :: "(nat \<times> 'a) list \<Rightarrow> 'a list \<Rightarrow> 'a list" where
  "apply_writes ws buf = fold (\<lambda>w b. b[fst w := snd w]) ws buf"

text \<open>
  The offsets of lane \<open>k\<close> in the two halves, the table entries of position \<open>s\<close>, and the
  two values that the kernel computes from them.
\<close>

definition x1_addr :: "kernel_args \<Rightarrow> nat \<Rightarrow> nat \<Rightarrow> nat \<Rightarrow> nat \<Rightarrow> nat" where
  "x1_addr a s h b k = s * in_seq_len_stride a + b * in_batch_stride a + h * head_dim a + k"

definition x2_addr :: "kernel_args \<Rightarrow> nat \<Rightarrow> nat \<Rightarrow> nat \<Rightarrow> nat \<Rightarrow> nat" where
  "x2_addr a s h b k = s * in_seq_len_stride a + b * in_batch_stride a + h * head_dim a + head_dim a div 2 + k"

definition cos_at :: "kernel_args \<Rightarrow> 'a heap \<Rightarrow> nat \<Rightarrow> nat \<Rightarrow> 'a" where
  "cos_at a mem s k = mem ! cos_ptr a ! ((s mod seq_len a) * cos_stride a + k)"

definition sin_at :: "kernel_args \<Rightarrow> 'a heap \<Rightarrow> nat \<Rightarrow> nat \<Rightarrow> 'a" where
  "sin_at a mem s k = mem ! sin_ptr a ! ((s mod seq_len a) * sin_stride a + k)"

definition rot1 :: "kernel_args \<Rightarrow> 'a::{zero,plus,minus,times} heap \<Rightarrow> nat \<Rightarrow> nat \<Rightarrow> nat \<Rightarrow> nat \<Rightarrow> 'a" where
  "rot1 a mem s h b k =
     mem ! input_ptr a ! x1_addr a s h b k * cos_at a mem s k
     - mem ! input_ptr a ! x2_addr a s h b k * sin_at a mem s k"

definition rot2 :: "kernel_args \<Rightarrow> 'a::{zero,plus,minus,times} heap \<Rightarrow> nat \<Rightarrow> nat \<Rightarrow> nat \<Rightarrow> nat \<Rightarrow> 'a" where
  "rot2 a mem s h b k =
     mem ! input_ptr a ! x1_addr a s h b k * sin_at a mem s k
     + mem ! input_ptr a ! x2_addr a s h b k * cos_at a mem s k"

text \<open>The lanes that are not masked, and the writes of one batch iteration.\<close>

definition live_lanes :: "kernel_args \<Rightarrow> nat" where
  "live_lanes a = min (BLOCK_SIZE a) (head_dim a div 2)"

definition step_writes :: "kernel_args \<Rightarrow> 'a::{zero,plus,minus,times} heap \<Rightarrow> nat \<Rightarrow> nat \<Rightarrow> nat \<Rightarrow> (nat \<times> 'a) list" where
  "step_writes a mem s h b =
     map (\<lambda>k. (x1_addr a s h b k, rot1 a mem s h b k)) [0..<live_lanes a]
     @ map (\<lambda>k. (x2_addr a s h b k, rot2 a mem s h b k)) [0..<live_lanes a]"

text \<open>
  The features of one \<open>(s, h, b)\<close> of the activation tensor, all its elements, and all
  entries of a table lie inside a buffer of \<open>n\<close> elements.
\<close>

definition row_in_bounds :: "kernel_args \<Rightarrow> nat \<Rightarrow> nat \<Rightarrow> nat \<Rightarrow> nat \<Rightarrow> bool" where
  "row_in_bounds a s h b n =
     (\<forall>d<head_dim a. s * in_seq_len_stride a + b * in_batch_stride a + h * head_dim a + d < n)"

definition table_in_bounds :: "nat \<Rightarrow> nat \<Rightarrow> nat \<Rightarrow> nat \<Rightarrow> bool" where
  "table_in_bounds rows cols stride n = (\<forall>r<rows. \<forall>c<cols. r * stride + c < n)"

definition activation_in_bounds :: "kernel_args \<Rightarrow> nat \<times> nat \<Rightarrow> nat \<Rightarrow> bool" where
  "activation_in_bounds a grid n =
     (\<forall>s<fst grid. \<forall>h<snd grid. \<forall>b<BATCH_NUM a. row_in_bounds a s h b n)"

text \<open>
  The contract of a launch over \<open>grid\<close>. The buffers hold what the arguments declare:
  every element of the activation tensor and of the output tensor of shape
  \<open>[fst grid, BATCH_NUM, snd grid, head_dim]\<close> at the strides passed, and every entry of
  tables of \<open>seq_len\<close> rows and \<open>head_dim div 2\<close> columns at their row strides. Besides,
  the output buffer is none of the buffers read and \<open>seq_len\<close> is positive.
\<close>

definition declared_in_bounds :: "kernel_args \<Rightarrow> nat \<times> nat \<Rightarrow> 'a heap \<Rightarrow> bool" where
  "declared_in_bounds a grid mem =
     (input_ptr a < length mem \<and> output_ptr a < length mem
      \<and> cos_ptr a < length mem \<and> sin_ptr a < length mem
      \<and> activation_in_bounds a grid (length (mem ! input_ptr a))
      \<and> activation_in_bounds a grid (length (mem ! output_ptr a))
      \<and> table_in_bounds (seq_len a) (head_dim a div 2) (cos_stride a) (length (mem ! cos_ptr a))
      \<and> table_in_bounds (seq_len a) (head_dim a div 2) (sin_stride a) (length (mem ! sin_ptr a)))"

definition buffers_declared :: "kernel_args \<Rightarrow> nat \<times> nat \<Rightarrow> 'a heap \<Rightarrow> bool" where
  "buffers_declared a grid mem =
     (declared_in_bounds a grid mem
      \<and> output_ptr a \<noteq> input_ptr a \<and> output_ptr a \<noteq> cos_ptr a \<and> output_ptr a \<noteq> sin_ptr a
      \<and> 0 < seq_len a)"

definition schedule_in_grid :: "kernel_args \<Rightarrow> nat \<times> nat \<Rightarrow> ((nat \<times> nat) \<times> nat list) list \<Rightarrow> bool" where
  "schedule_in_grid a grid sched =
     list_all (\<lambda>u. fst (fst u) < fst grid \<and> snd (fst u) < snd grid
                  \<and> list_all (\<lambda>b. b < BATCH_NUM a) (snd u)) sched"

definition unit_writes :: "kernel_args \<Rightarrow> 'a::{zero,plus,minus,times} heap \<Rightarrow> (nat \<times> nat) \<times> nat list \<Rightarrow> (nat \<times> 'a) list" where
  "unit_writes a mem u = concat (map (step_writes a mem (fst (fst u)) (snd (fst u))) (snd u))"

definition schedule_writes :: "kernel_args \<Rightarrow> 'a::{zero,plus,minus,times} heap \<Rightarrow> ((nat \<times> nat) \<times> nat list) list \<Rightarrow> (nat \<times> 'a) list" where
  "schedule_writes a mem sched = concat (map (unit_writes a mem) sched)"

text \<open>
  Two conditions on the strides passed to the kernel. \<open>distinct_offsets\<close>: distinct
  elements of the declared tensor have distinct offsets. \<open>non_overlapping\<close>: the rows of
  one batch and of one position do not overlap, in either order of the two axes, as for
  a contiguous tensor and for its transpose in axes 0 and 1.
\<close>

definition distinct_offsets :: "kernel_args \<Rightarrow> nat \<times> nat \<Rightarrow> bool" where
  "distinct_offsets a grid =
     inj_on (\<lambda>(s, b, h, d). s * in_seq_len_stride a + b * in_batch_stride a + h * head_dim a + d)
       {(s, b, h, d). s < fst grid \<and> b < BATCH_NUM a \<and> h < snd grid \<and> d < head_dim a}"

definition non_overlapping :: "kernel_args \<Rightarrow> nat \<times> nat \<Rightarrow> bool" where
  "non_overlapping a grid =
     ((snd grid * head_dim a \<le> in_batch_stride a
        \<and> BATCH_NUM a * in_batch_stride a \<le> in_seq_len_stride a)
      \<or> (snd grid * head_dim a \<le> in_seq_len_stride a
        \<and> fst grid * in_seq_len_stride a \<le> in_batch_stride a))"

definition elem_addr :: "kernel_args \<Rightarrow> nat \<Rightarrow> nat \<Rightarrow> nat \<Rightarrow> nat \<Rightarrow> nat" where
  "elem_addr a s h b d = s * in_seq_len_stride a + b * in_batch_stride a + h * head_dim a + d"

text \<open>
  The element \<open>(s, b, h, d)\<close> of a tensor as the kernel addresses it, and the entry
  \<open>(r, c)\<close> of a table with the given row stride.
\<close>

definition element :: "kernel_args \<Rightarrow> 'a heap \<Rightarrow> nat \<Rightarrow> nat \<Rightarrow> nat \<Rightarrow> nat \<Rightarrow> nat \<Rightarrow> 'a" where
  "element a mem ptr s b h d =
     mem ! ptr ! (s * in_seq_len_stride a + b * in_batch_stride a + h * head_dim a + d)"

definition table_entry :: "'a heap \<Rightarrow> nat \<Rightarrow> nat \<Rightarrow> nat \<Rightarrow> nat \<Rightarrow> 'a" where
  "table_entry mem ptr stride r c = mem ! ptr ! (r * stride + c)"

text \<open>
  The offset at which the work item \<open>(s, b, h, half, lane)\<close> stores, and the work items of
  a launch: \<open>half\<close> is false for the store of line 40 and true for that of line 41.
\<close>

definition store_offset :: "kernel_args \<Rightarrow> nat \<times> nat \<times> nat \<times> bool \<times> nat \<Rightarrow> nat" where
  "store_offset a w =
     (case w of (s, b, h, half, k) \<Rightarrow> (if half then x2_offset a s h b else x1_offset a s h b) ! k)"

definition work_items :: "kernel_args \<Rightarrow> nat \<times> nat \<Rightarrow> (nat \<times> nat \<times> nat \<times> bool \<times> nat) set" where
  "work_items a grid =
     {(s, b, h, half, k). s < fst grid \<and> b < BATCH_NUM a \<and> h < snd grid
                          \<and> k < BLOCK_SIZE a \<and> k < head_dim a div 2}"

text \<open>
  An invocation to try the statements on: two positions, two batches, one head of four
  features, tables of two rows and two columns, integer elements.
\<close>

definition ex_args :: kernel_args where
  "ex_args = \<lparr>input_ptr = 0, in_seq_len_stride = 8, in_batch_stride = 4, output_ptr = 1,
              cos_ptr = 2, sin_ptr = 3, cos_stride = 2, sin_stride = 2, seq_len = 2,
              head_dim = 4, BLOCK_SIZE = 2, BATCH_NUM = 2\<rparr>"

definition ex_mem :: "int heap" where
  "ex_mem = [[1, 2, 3, 4, 5, 6, 7, 8, 9, 10, 11, 12, 13, 14, 15, 16],
             [0, 0, 0, 0, 0, 0, 0, 0, 0, 0, 0, 0, 0, 0, 0, 0],
             [1, 1, 2, 3],
             [0, 0, 5, 7]]"

text \<open>
  The arguments that \<open>rope\<close> passes for a tensor of one position, one batch and one head
  of two features that has been expanded to two positions (its stride along the sequence
  axis is 0), with a fresh output buffer of four elements and tables of two rows.
\<close>

definition ov_args :: kernel_args where
  "ov_args = \<lparr>input_ptr = 0, in_seq_len_stride = 0, in_batch_stride = 2, output_ptr = 1,
              cos_ptr = 2, sin_ptr = 3, cos_stride = 1, sin_stride = 1, seq_len = 2,
              head_dim = 2, BLOCK_SIZE = 1, BATCH_NUM = 1\<rparr>"

definition ov_mem :: "int heap" where
  "ov_mem = [[1, 2], [0, 0, 0, 0], [1, 2], [0, 3]]"

text \<open>A contiguous tensor: the strides of its four axes are those of a row-major array.\<close>

definition contiguous :: "tensor \<Rightarrow> bool" where
  "contiguous t =
     (stride3 t = 1 \<and> stride2 t = size3 t \<and> stride1 t = size2 t * size3 t
      \<and> stride0 t = size1 t * size2 t * size3 t)"



text \<open>
  Calls to try the statements on, with real elements and the real cosine and sine: one
  position, one batch, one head of four features, the input \<open>[1, 0, 0, 1]\<close> and the angle 0
  (the scenario of the specification); the same with a head of three features; and two
  positions with a table of one row.
\<close>

definition ex_state :: "real state" where
  "ex_state = \<lparr>heap = [[1, 0, 0, 1], [0, 0]],
               ctx = \<lparr>ctx_cos = None, ctx_sin = None, ctx_BLOCK_SIZE = None,
                      ctx_tensor_format = None\<rparr>\<rparr>"

definition ex_tensor :: tensor where
  "ex_tensor = \<lparr>data_ptr = 0, size0 = 1, size1 = 1, size2 = 1, size3 = 4,
                stride0 = 4, stride1 = 4, stride2 = 4, stride3 = 1\<rparr>"

definition ex_freqs :: table where
  "ex_freqs = \<lparr>tbl_ptr = 1, tbl_rows = 1, tbl_cols = 2\<rparr>"

definition ex_odd_state :: "real state" where
  "ex_odd_state = \<lparr>heap = [[1, 2, 3], [0]],
               ctx = \<lparr>ctx_cos = None, ctx_sin = None, ctx_BLOCK_SIZE = None,
                      ctx_tensor_format = None\<rparr>\<rparr>"

definition ex_odd_tensor :: tensor where
  "ex_odd_tensor = \<lparr>data_ptr = 0, size0 = 1, size1 = 1, size2 = 1, size3 = 3,
                stride0 = 3, stride1 = 3, stride2 = 3, stride3 = 1\<rparr>"

definition ex_short_state :: "real state" where
  "ex_short_state = \<lparr>heap = [[1, 2, 3, 4], [0]],
               ctx = \<lparr>ctx_cos = None, ctx_sin = None, ctx_BLOCK_SIZE = None,
                      ctx_tensor_format = None\<rparr>\<rparr>"

definition ex_short_tensor :: tensor where
  "ex_short_tensor = \<lparr>data_ptr = 0, size0 = 2, size1 = 1, size2 = 1, size3 = 2,
                stride0 = 2, stride1 = 2, stride2 = 2, stride3 = 1\<rparr>"

definition ex_one_row :: table where
  "ex_one_row = \<lparr>tbl_ptr = 1, tbl_rows = 1, tbl_cols = 1\<rparr>"




text \<open>The schedule of angles in the words of the specification.\<close>

definition spec_angle :: "real \<Rightarrow> nat \<Rightarrow> nat \<Rightarrow> nat \<Rightarrow> real" where
  "spec_angle base dim' m k = real m * base powr (- 2 * real k / real dim')"

section \<open>Properties\<close>

lemma length_apply_writes [simp]: "length (apply_writes ws buf) = length buf"
  unfolding apply_writes_def by (induction ws arbitrary: buf) auto

lemma apply_writes_append: "apply_writes (ws @ vs) buf = apply_writes vs (apply_writes ws buf)"
  by (simp add: apply_writes_def)

lemma apply_writes_Nil [simp]: "apply_writes [] buf = buf"
  by (simp add: apply_writes_def)

lemma apply_writes_Cons: "apply_writes (w # ws) buf = apply_writes ws (buf[fst w := snd w])"
  by (simp add: apply_writes_def)

lemma apply_writes_untouched: "i \<notin> fst ` set ws \<Longrightarrow> apply_writes ws buf ! i = buf ! i"
  by (induction ws arbitrary: buf) (auto simp: apply_writes_Cons)

lemma apply_writes_written:
  "single_valued (set ws) \<Longrightarrow> (i, v) \<in> set ws \<Longrightarrow> i < length buf \<Longrightarrow> apply_writes ws buf ! i = v"
proof (induction ws arbitrary: buf)
  case Nil
  then show ?case by simp
next
  case (Cons w ws)
  have sv: "single_valued (set ws)"
    using Cons.prems(1) by (rule single_valued_subset [rotated]) auto
  show ?case
  proof (cases "(i, v) \<in> set ws")
    case True
    then show ?thesis using Cons.IH [OF sv True] Cons.prems(3) by (simp add: apply_writes_Cons)
  next
    case False
    then have w: "w = (i, v)" using Cons.prems(2) by simp
    have "i \<notin> fst ` set ws"
    proof
      assume "i \<in> fst ` set ws"
      then obtain v' where v': "(i, v') \<in> set ws" by force
      with Cons.prems(1) w have "v' = v" by (auto simp: single_valued_def)
      with v' False show False by simp
    qed
    then show ?thesis using Cons.prems(3) w by (simp add: apply_writes_Cons apply_writes_untouched)
  qed
qed

lemma apply_writes_set_cong:
  assumes "single_valued (set ws)" and "set vs = set ws"
  shows "apply_writes vs buf = apply_writes ws buf"
proof (rule nth_equalityI)
  show "length (apply_writes vs buf) = length (apply_writes ws buf)" by simp
next
  fix i assume "i < length (apply_writes vs buf)"
  then have i: "i < length buf" by simp
  have sv: "single_valued (set vs)" using assms by simp
  show "apply_writes vs buf ! i = apply_writes ws buf ! i"
  proof (cases "i \<in> fst ` set ws")
    case True
    then obtain v where v: "(i, v) \<in> set ws" by force
    then have "(i, v) \<in> set vs" using assms(2) by simp
    then show ?thesis
      using apply_writes_written [OF sv _ i] apply_writes_written [OF assms(1) v i] by simp
  next
    case False
    then show ?thesis using assms(2) by (simp add: apply_writes_untouched)
  qed
qed

lemma fold_store_lane:
  "fold store_lane (map (\<lambda>k. (f k, v k, g k)) xs) buf
     = apply_writes (map (\<lambda>k. (f k, v k)) (filter g xs)) buf"
  by (induction xs arbitrary: buf) (auto simp: store_lane_def apply_writes_Cons)

lemma filter_less_upt: "filter (\<lambda>k. k < m) [0..<n] = [0..<min n m]"
proof (induction n)
  case 0
  then show ?case by simp
next
  case (Suc n)
  show ?case
  proof (cases "n < m")
    case True
    then show ?thesis using Suc by (simp add: min_def)
  next
    case False
    then show ?thesis using Suc by (simp add: min_def)
  qed
qed

lemma tl_load_block:
  assumes "\<And>k. k < n \<Longrightarrow> g k \<Longrightarrow> ptr < length mem \<and> f k < length (mem ! ptr)"
  shows "tl_load mem ptr (map f [0..<n]) (map g [0..<n])
           = Inr (map (\<lambda>k. if g k then mem ! ptr ! f k else 0) [0..<n])"
  using assms by (simp add: tl_load_def zip_map_map zip_same_conv_map list_all_iff o_def)

lemma tl_store_block:
  assumes "\<And>k. k < n \<Longrightarrow> g k \<Longrightarrow> ptr < length mem \<and> f k < length (mem ! ptr)"
  shows "tl_store mem ptr (map f [0..<n]) (map v [0..<n]) (map g [0..<n])
           = Inr (mem[ptr := apply_writes (map (\<lambda>k. (f k, v k)) (filter g [0..<n])) (mem ! ptr)])"
proof -
  have z: "zip (map f [0..<n]) (zip (map v [0..<n]) (map g [0..<n])) = map (\<lambda>k. (f k, v k, g k)) [0..<n]"
    by (simp add: zip_map_map zip_same_conv_map o_def)
  show ?thesis using assms
    by (simp add: tl_store_def z fold_store_lane) (simp add: zip_map_map zip_same_conv_map list_all_iff o_def)
qed

lemma y1_block: "y1 (map p xs) (map q xs) (map c xs) (map d xs) = map (\<lambda>k. p k * c k - q k * d k) xs"
  by (simp add: y1_def zip_map_map zip_same_conv_map o_def)

lemma y2_block: "y2 (map p xs) (map q xs) (map c xs) (map d xs) = map (\<lambda>k. p k * d k + q k * c k) xs"
  by (simp add: y2_def zip_map_map zip_same_conv_map o_def)

lemma x1_offset_addr: "x1_offset a s h b = map (x1_addr a s h b) [0..<BLOCK_SIZE a]"
  by (simp add: x1_offset_def x1_addr_def head_dim_offset_def)

lemma x2_offset_addr: "x2_offset a s h b = map (x2_addr a s h b) [0..<BLOCK_SIZE a]"
  by (simp add: x2_offset_def x2_addr_def head_dim_offset_def head_dim_mid_def)

lemma lane_mask_upt: "lane_mask a = map (\<lambda>k. k < head_dim a div 2) [0..<BLOCK_SIZE a]"
  by (simp add: lane_mask_def head_dim_offset_def head_dim_mid_def)

lemma row_x1: "row_in_bounds a s h b n \<Longrightarrow> k < head_dim a div 2 \<Longrightarrow> x1_addr a s h b k < n"
  unfolding row_in_bounds_def x1_addr_def
  by (metis (no_types, lifting) div_le_dividend less_le_trans)

lemma row_x2: "row_in_bounds a s h b n \<Longrightarrow> k < head_dim a div 2 \<Longrightarrow> x2_addr a s h b k < n"
proof -
  assume r: "row_in_bounds a s h b n" and k: "k < head_dim a div 2"
  then have "head_dim a div 2 + k < head_dim a" by linarith
  with r have "s * in_seq_len_stride a + b * in_batch_stride a + h * head_dim a + (head_dim a div 2 + k) < n"
    unfolding row_in_bounds_def by blast
  then show ?thesis by (simp add: x2_addr_def add.assoc)
qed

lemma batch_step_closed:
  fixes mem :: "'a::{zero,plus,minus,times} heap"
  assumes inp: "input_ptr a < length mem" and outp: "output_ptr a < length mem"
    and ne: "output_ptr a \<noteq> input_ptr a"
    and bi: "row_in_bounds a s h b (length (mem ! input_ptr a))"
    and bo: "row_in_bounds a s h b (length (mem ! output_ptr a))"
    and cv: "cosv = map (\<lambda>k. if k < head_dim a div 2 then cos_at a mem s k else 0) [0..<BLOCK_SIZE a]"
    and sv: "sinv = map (\<lambda>k. if k < head_dim a div 2 then sin_at a mem s k else 0) [0..<BLOCK_SIZE a]"
  shows "batch_step a s h cosv sinv b mem
           = Inr (mem[output_ptr a := apply_writes (step_writes a mem s h b) (mem ! output_ptr a)])"
proof -
  let ?N = "BLOCK_SIZE a" and ?g = "\<lambda>k. k < head_dim a div 2"
  let ?X1 = "\<lambda>k. if ?g k then mem ! input_ptr a ! x1_addr a s h b k else 0"
  let ?X2 = "\<lambda>k. if ?g k then mem ! input_ptr a ! x2_addr a s h b k else 0"
  let ?C = "\<lambda>k. if ?g k then cos_at a mem s k else 0"
  let ?S = "\<lambda>k. if ?g k then sin_at a mem s k else 0"
  let ?Y1 = "\<lambda>k. ?X1 k * ?C k - ?X2 k * ?S k"
  let ?Y2 = "\<lambda>k. ?X1 k * ?S k + ?X2 k * ?C k"
  let ?W1 = "map (\<lambda>k. (x1_addr a s h b k, ?Y1 k)) (filter ?g [0..<?N])"
  let ?W2 = "map (\<lambda>k. (x2_addr a s h b k, ?Y2 k)) (filter ?g [0..<?N])"
  let ?mem1 = "mem[output_ptr a := apply_writes ?W1 (mem ! output_ptr a)]"
  have l1: "tl_load mem (input_ptr a) (x1_offset a s h b) (lane_mask a) = Inr (map ?X1 [0..<?N])"
    unfolding x1_offset_addr lane_mask_upt
    by (rule tl_load_block) (simp add: inp row_x1 [OF bi])
  have l2: "tl_load mem (input_ptr a) (x2_offset a s h b) (lane_mask a) = Inr (map ?X2 [0..<?N])"
    unfolding x2_offset_addr lane_mask_upt
    by (rule tl_load_block) (simp add: inp row_x2 [OF bi])
  have yy1: "y1 (map ?X1 [0..<?N]) (map ?X2 [0..<?N]) cosv sinv = map ?Y1 [0..<?N]"
    unfolding cv sv by (rule y1_block)
  have yy2: "y2 (map ?X1 [0..<?N]) (map ?X2 [0..<?N]) cosv sinv = map ?Y2 [0..<?N]"
    unfolding cv sv by (rule y2_block)
  have s1: "tl_store mem (output_ptr a) (x1_offset a s h b) (map ?Y1 [0..<?N]) (lane_mask a) = Inr ?mem1"
    unfolding x1_offset_addr lane_mask_upt
    by (rule tl_store_block) (simp add: outp row_x1 [OF bo])
  have len1: "length (?mem1 ! output_ptr a) = length (mem ! output_ptr a)"
    using outp by simp
  have s2: "tl_store ?mem1 (output_ptr a) (x2_offset a s h b) (map ?Y2 [0..<?N]) (lane_mask a)
              = Inr (?mem1[output_ptr a := apply_writes ?W2 (?mem1 ! output_ptr a)])"
    unfolding x2_offset_addr lane_mask_upt
    by (rule tl_store_block) (simp add: outp len1 row_x2 [OF bo] del: nth_list_update_eq)
  have fin: "?mem1[output_ptr a := apply_writes ?W2 (?mem1 ! output_ptr a)]
               = mem[output_ptr a := apply_writes (?W1 @ ?W2) (mem ! output_ptr a)]"
    using outp by (simp add: apply_writes_append)
  have w1: "?W1 = map (\<lambda>k. (x1_addr a s h b k, rot1 a mem s h b k)) [0..<live_lanes a]"
    by (simp add: filter_less_upt live_lanes_def rot1_def)
  have w2: "?W2 = map (\<lambda>k. (x2_addr a s h b k, rot2 a mem s h b k)) [0..<live_lanes a]"
    by (simp add: filter_less_upt live_lanes_def rot2_def)
  have "batch_step a s h cosv sinv b mem
          = Inr (?mem1[output_ptr a := apply_writes ?W2 (?mem1 ! output_ptr a)])"
    by (simp add: batch_step_def bind_err_def l1 l2 yy1 yy2 s1 s2 del: nth_list_update_eq)
  then have "batch_step a s h cosv sinv b mem
          = Inr (mem[output_ptr a := apply_writes (?W1 @ ?W2) (mem ! output_ptr a)])"
    by (simp only: fin)
  then show ?thesis
    unfolding step_writes_def w1 w2 .
qed

lemma step_writes_frame:
  assumes "output_ptr a \<noteq> input_ptr a" "output_ptr a \<noteq> cos_ptr a" "output_ptr a \<noteq> sin_ptr a"
  shows "step_writes a (mem[output_ptr a := buf]) s h b = step_writes a mem s h b"
  using assms by (simp add: step_writes_def rot1_def rot2_def cos_at_def sin_at_def)

lemma batch_loop_closed:
  fixes mem :: "'a::{zero,plus,minus,times} heap"
  assumes inp: "input_ptr a < length mem" and outp: "output_ptr a < length mem"
    and ne: "output_ptr a \<noteq> input_ptr a" "output_ptr a \<noteq> cos_ptr a" "output_ptr a \<noteq> sin_ptr a"
    and cv: "cosv = map (\<lambda>k. if k < head_dim a div 2 then cos_at a mem s k else 0) [0..<BLOCK_SIZE a]"
    and sv: "sinv = map (\<lambda>k. if k < head_dim a div 2 then sin_at a mem s k else 0) [0..<BLOCK_SIZE a]"
    and bi: "\<And>b. b \<in> set bs \<Longrightarrow> row_in_bounds a s h b (length (mem ! input_ptr a))"
    and bo: "\<And>b. b \<in> set bs \<Longrightarrow> row_in_bounds a s h b (length (mem ! output_ptr a))"
    and len: "length buf = length (mem ! output_ptr a)"
  shows "batch_loop a s h cosv sinv bs (mem[output_ptr a := buf])
           = Inr (mem[output_ptr a := apply_writes (concat (map (step_writes a mem s h) bs)) buf])"
  using bi bo len
proof (induction bs arbitrary: buf)
  case Nil
  then show ?case by simp
next
  case (Cons b bs)
  let ?m = "mem[output_ptr a := buf]"
  have cv': "cosv = map (\<lambda>k. if k < head_dim a div 2 then cos_at a ?m s k else 0) [0..<BLOCK_SIZE a]"
    using ne by (simp add: cv cos_at_def)
  have sv': "sinv = map (\<lambda>k. if k < head_dim a div 2 then sin_at a ?m s k else 0) [0..<BLOCK_SIZE a]"
    using ne by (simp add: sv sin_at_def)
  have bi': "row_in_bounds a s h b (length (?m ! input_ptr a))"
    using Cons.prems(1) [of b] ne by simp
  have bo': "row_in_bounds a s h b (length (?m ! output_ptr a))"
    using Cons.prems(2) [of b] Cons.prems(3) outp by simp
  have step: "batch_step a s h cosv sinv b ?m
                = Inr (mem[output_ptr a := apply_writes (step_writes a mem s h b) buf])"
    using batch_step_closed [of a ?m s h b cosv sinv, OF _ _ ne(1) bi' bo' cv' sv'] inp outp
    by (simp add: step_writes_frame [OF ne])
  have "batch_loop a s h cosv sinv bs (mem[output_ptr a := apply_writes (step_writes a mem s h b) buf])
          = Inr (mem[output_ptr a := apply_writes (concat (map (step_writes a mem s h) bs))
                   (apply_writes (step_writes a mem s h b) buf)])"
    using Cons.prems by (intro Cons.IH) simp_all
  then show ?case
    by (simp add: step bind_err_def apply_writes_append)
qed

lemma table_row:
  "table_in_bounds rows cols stride n \<Longrightarrow> 0 < rows \<Longrightarrow> k < cols \<Longrightarrow> (s mod rows) * stride + k < n"
  by (simp add: table_in_bounds_def)

lemma kernel_unit_closed:
  fixes mem :: "'a::{zero,plus,minus,times} heap"
  assumes decl: "buffers_declared a grid mem"
    and s: "s < fst grid" and h: "h < snd grid" and bs: "list_all (\<lambda>b. b < BATCH_NUM a) bs"
    and len: "length buf = length (mem ! output_ptr a)"
  shows "kernel_unit a s h bs (mem[output_ptr a := buf])
           = Inr (mem[output_ptr a := apply_writes (unit_writes a mem ((s, h), bs)) buf])"
proof -
  let ?m = "mem[output_ptr a := buf]"
  let ?cosv = "map (\<lambda>k. if k < head_dim a div 2 then cos_at a mem s k else 0) [0..<BLOCK_SIZE a]"
  let ?sinv = "map (\<lambda>k. if k < head_dim a div 2 then sin_at a mem s k else 0) [0..<BLOCK_SIZE a]"
  from decl have ptrs: "input_ptr a < length mem" "output_ptr a < length mem"
      "cos_ptr a < length mem" "sin_ptr a < length mem"
    and ne: "output_ptr a \<noteq> input_ptr a" "output_ptr a \<noteq> cos_ptr a" "output_ptr a \<noteq> sin_ptr a"
    and sl: "0 < seq_len a"
    and ai: "activation_in_bounds a grid (length (mem ! input_ptr a))"
    and ao: "activation_in_bounds a grid (length (mem ! output_ptr a))"
    and tc: "table_in_bounds (seq_len a) (head_dim a div 2) (cos_stride a) (length (mem ! cos_ptr a))"
    and ts: "table_in_bounds (seq_len a) (head_dim a div 2) (sin_stride a) (length (mem ! sin_ptr a))"
    by (simp_all add: buffers_declared_def declared_in_bounds_def)
  have lc: "tl_load ?m (cos_ptr a) (cos_offset a s) (lane_mask a) = Inr ?cosv"
    unfolding cos_offset_def head_dim_offset_def lane_mask_upt
    using ne ptrs table_row [OF tc sl]
    by (subst tl_load_block) (simp_all add: cos_at_def)
  have ls: "tl_load ?m (sin_ptr a) (sin_offset a s) (lane_mask a) = Inr ?sinv"
    unfolding sin_offset_def head_dim_offset_def lane_mask_upt
    using ne ptrs table_row [OF ts sl]
    by (subst tl_load_block) (simp_all add: sin_at_def)
  have bi: "row_in_bounds a s h b (length (mem ! input_ptr a))" if "b \<in> set bs" for b
    using ai s h bs that by (simp add: activation_in_bounds_def list_all_iff)
  have bo: "row_in_bounds a s h b (length (mem ! output_ptr a))" if "b \<in> set bs" for b
    using ao s h bs that by (simp add: activation_in_bounds_def list_all_iff)
  have "batch_loop a s h ?cosv ?sinv bs ?m
          = Inr (mem[output_ptr a := apply_writes (concat (map (step_writes a mem s h) bs)) buf])"
    by (rule batch_loop_closed [OF ptrs(1,2) ne refl refl bi bo len])
  then show ?thesis
    using sl by (simp add: kernel_unit_def lc ls bind_err_def unit_writes_def)
qed

lemma run_schedule_closed:
  fixes mem :: "'a::{zero,plus,minus,times} heap"
  assumes decl: "buffers_declared a grid mem"
    and sched: "schedule_in_grid a grid sched"
    and len: "length buf = length (mem ! output_ptr a)"
  shows "run_schedule a sched (mem[output_ptr a := buf])
           = Inr (mem[output_ptr a := apply_writes (schedule_writes a mem sched) buf])"
  using sched len
proof (induction sched arbitrary: buf)
  case Nil
  then show ?case by (simp add: schedule_writes_def)
next
  case (Cons u us)
  obtain s h bs where u: "u = ((s, h), bs)" by (cases u) auto
  from Cons.prems(1) have s: "s < fst grid" and h: "h < snd grid"
    and bs: "list_all (\<lambda>b. b < BATCH_NUM a) bs" and rest: "schedule_in_grid a grid us"
    by (simp_all add: schedule_in_grid_def u)
  have unit: "kernel_unit a s h bs (mem[output_ptr a := buf])
           = Inr (mem[output_ptr a := apply_writes (unit_writes a mem ((s, h), bs)) buf])"
    by (rule kernel_unit_closed [OF decl s h bs Cons.prems(2)])
  have "run_schedule a us (mem[output_ptr a := apply_writes (unit_writes a mem ((s, h), bs)) buf])
          = Inr (mem[output_ptr a := apply_writes (schedule_writes a mem us)
                   (apply_writes (unit_writes a mem ((s, h), bs)) buf)])"
    using Cons.prems(2) by (intro Cons.IH [OF rest]) simp
  then show ?case
    by (simp add: u unit bind_err_def schedule_writes_def apply_writes_append)
qed

lemma run_schedule_writes:
  fixes mem :: "'a::{zero,plus,minus,times} heap"
  assumes "buffers_declared a grid mem" and "schedule_in_grid a grid sched"
  shows "run_schedule a sched mem
           = Inr (mem[output_ptr a := apply_writes (schedule_writes a mem sched) (mem ! output_ptr a)])"
  using run_schedule_closed [OF assms, of "mem ! output_ptr a"] by simp

lemma radix_inj:
  fixes w :: nat
  assumes "r < w" and "r' < w" and "x * w + r = x' * w + r'"
  shows "x = x' \<and> r = r'"
proof -
  have "(x * w + r) div w = x" "(x' * w + r') div w = x'" using assms(1,2) by simp_all
  then have "x = x'" using assms(3) by simp
  then show ?thesis using assms(3) by simp
qed

lemma radix_less:
  fixes w :: nat
  assumes "r < w" and "x < n"
  shows "x * w + r < n * w"
proof -
  have "x * w + r < Suc x * w" using assms(1) by simp
  also have "\<dots> \<le> n * w" using assms(2) by (intro mult_le_mono1) simp
  finally show ?thesis .
qed

lemma elem_addr_inj:
  assumes no: "non_overlapping a grid"
    and s: "s < fst grid" "s' < fst grid" and h: "h < snd grid" "h' < snd grid"
    and b: "b < BATCH_NUM a" "b' < BATCH_NUM a" and d: "d < head_dim a" "d' < head_dim a"
    and eq: "elem_addr a s h b d = elem_addr a s' h' b' d'"
  shows "s = s' \<and> h = h' \<and> b = b' \<and> d = d'"
proof -
  let ?D = "head_dim a" and ?ss = "in_seq_len_stride a" and ?bs = "in_batch_stride a"
  let ?q = "h * ?D + d" and ?q' = "h' * ?D + d'"
  have q: "?q < snd grid * ?D" "?q' < snd grid * ?D"
    using radix_less [OF d(1) h(1)] radix_less [OF d(2) h(2)] by simp_all
  from no consider
      (sb) "snd grid * ?D \<le> ?bs" "BATCH_NUM a * ?bs \<le> ?ss"
    | (bs) "snd grid * ?D \<le> ?ss" "fst grid * ?ss \<le> ?bs"
    unfolding non_overlapping_def by blast
  then have "s = s' \<and> b = b' \<and> ?q = ?q'"
  proof cases
    case sb
    have qb: "?q < ?bs" "?q' < ?bs" using q sb(1) by simp_all
    have m: "b * ?bs + ?q < ?ss" "b' * ?bs + ?q' < ?ss"
      using radix_less [OF qb(1) b(1)] radix_less [OF qb(2) b(2)] sb(2) by simp_all
    have "s * ?ss + (b * ?bs + ?q) = s' * ?ss + (b' * ?bs + ?q')"
      using eq by (simp add: elem_addr_def add.assoc)
    from radix_inj [OF m this] have "s = s'" "b * ?bs + ?q = b' * ?bs + ?q'" by simp_all
    with radix_inj [OF qb] show ?thesis by blast
  next
    case bs
    have qs: "?q < ?ss" "?q' < ?ss" using q bs(1) by simp_all
    have m: "s * ?ss + ?q < ?bs" "s' * ?ss + ?q' < ?bs"
      using radix_less [OF qs(1) s(1)] radix_less [OF qs(2) s(2)] bs(2) by simp_all
    have "b * ?bs + (s * ?ss + ?q) = b' * ?bs + (s' * ?ss + ?q')"
      using eq by (simp add: elem_addr_def add.assoc add.left_commute)
    from radix_inj [OF m this] have "b = b'" "s * ?ss + ?q = s' * ?ss + ?q'" by simp_all
    with radix_inj [OF qs] show ?thesis by blast
  qed
  moreover from this radix_inj [OF d] have "h = h' \<and> d = d'" by blast
  ultimately show ?thesis by blast
qed

lemma non_overlapping_distinct:
  assumes "non_overlapping a grid"
  shows "distinct_offsets a grid"
proof -
  let ?f = "\<lambda>(s, b, h, d). s * in_seq_len_stride a + b * in_batch_stride a + h * head_dim a + d"
  let ?D = "{(s, b, h, d). s < fst grid \<and> b < BATCH_NUM a \<and> h < snd grid \<and> d < head_dim a}"
  have "x = y" if x: "x \<in> ?D" and y: "y \<in> ?D" and eq: "?f x = ?f y" for x y
  proof -
    obtain s b h d where xt: "x = (s, b, h, d)" by (cases x) auto
    obtain s' b' h' d' where yt: "y = (s', b', h', d')" by (cases y) auto
    from x xt have g: "s < fst grid" "b < BATCH_NUM a" "h < snd grid" "d < head_dim a" by simp_all
    from y yt have g': "s' < fst grid" "b' < BATCH_NUM a" "h' < snd grid" "d' < head_dim a" by simp_all
    from eq xt yt have "elem_addr a s h b d = elem_addr a s' h' b' d'" by (simp add: elem_addr_def)
    from elem_addr_inj [OF assms g(1) g'(1) g(3) g'(3) g(2) g'(2) g(4) g'(4) this]
    show ?thesis by (simp add: xt yt)
  qed
  then have "inj_on ?f ?D" by (rule inj_onI)
  then show ?thesis by (simp add: distinct_offsets_def)
qed

lemma distinct_offsetsD:
  assumes "distinct_offsets a grid"
    and "s < fst grid" "s' < fst grid" and "h < snd grid" "h' < snd grid"
    and "b < BATCH_NUM a" "b' < BATCH_NUM a" and "d < head_dim a" "d' < head_dim a"
    and "elem_addr a s h b d = elem_addr a s' h' b' d'"
  shows "s = s' \<and> h = h' \<and> b = b' \<and> d = d'"
proof -
  let ?f = "\<lambda>(s, b, h, d). s * in_seq_len_stride a + b * in_batch_stride a + h * head_dim a + d"
  let ?D = "{(s, b, h, d). s < fst grid \<and> b < BATCH_NUM a \<and> h < snd grid \<and> d < head_dim a}"
  have inj: "inj_on ?f ?D" using assms(1) by (simp add: distinct_offsets_def)
  have x: "(s, b, h, d) \<in> ?D" and y: "(s', b', h', d') \<in> ?D" using assms(2-9) by simp_all
  have eq: "?f (s, b, h, d) = ?f (s', b', h', d')"
    using assms(10) by (simp add: elem_addr_def)
  from inj_onD [OF inj eq x y] show ?thesis by simp
qed

lemma x1_elem: "x1_addr a s h b k = elem_addr a s h b k"
  by (simp add: x1_addr_def elem_addr_def)

lemma x2_elem: "x2_addr a s h b k = elem_addr a s h b (head_dim a div 2 + k)"
  by (simp add: x2_addr_def elem_addr_def add.assoc)

lemma in_step_writes:
  "(i, v) \<in> set (step_writes a mem s h b) \<longleftrightarrow>
     (\<exists>k<live_lanes a. (i = x1_addr a s h b k \<and> v = rot1 a mem s h b k)
                      \<or> (i = x2_addr a s h b k \<and> v = rot2 a mem s h b k))"
  by (auto simp: step_writes_def)

lemma in_schedule_writes:
  "(i, v) \<in> set (schedule_writes a mem sched) \<longleftrightarrow>
     (\<exists>u\<in>set sched. \<exists>b\<in>set (snd u). (i, v) \<in> set (step_writes a mem (fst (fst u)) (snd (fst u)) b))"
  by (auto simp: schedule_writes_def unit_writes_def)

lemma live_lane_dims:
  assumes "k < live_lanes a"
  shows "k < head_dim a" and "head_dim a div 2 + k < head_dim a" and "k < head_dim a div 2"
  using assms by (auto simp: live_lanes_def)

lemma schedule_writes_single_valued:
  assumes no: "distinct_offsets a grid" and sg: "schedule_in_grid a grid sched"
  shows "single_valued (set (schedule_writes a mem sched))"
proof (rule single_valuedI)
  fix i v v'
  assume "(i, v) \<in> set (schedule_writes a mem sched)" and "(i, v') \<in> set (schedule_writes a mem sched)"
  then obtain u b k u' b' k'
    where u: "u \<in> set sched" "b \<in> set (snd u)" "k < live_lanes a"
      and w: "(i = x1_addr a (fst (fst u)) (snd (fst u)) b k \<and> v = rot1 a mem (fst (fst u)) (snd (fst u)) b k)
            \<or> (i = x2_addr a (fst (fst u)) (snd (fst u)) b k \<and> v = rot2 a mem (fst (fst u)) (snd (fst u)) b k)"
      and u': "u' \<in> set sched" "b' \<in> set (snd u')" "k' < live_lanes a"
      and w': "(i = x1_addr a (fst (fst u')) (snd (fst u')) b' k' \<and> v' = rot1 a mem (fst (fst u')) (snd (fst u')) b' k')
            \<or> (i = x2_addr a (fst (fst u')) (snd (fst u')) b' k' \<and> v' = rot2 a mem (fst (fst u')) (snd (fst u')) b' k')"
    unfolding in_schedule_writes in_step_writes by blast
  let ?s = "fst (fst u)" and ?h = "snd (fst u)" and ?s' = "fst (fst u')" and ?h' = "snd (fst u')"
  have g: "?s < fst grid" "?h < snd grid" "b < BATCH_NUM a"
    using sg u(1,2) by (auto simp: schedule_in_grid_def list_all_iff)
  have g': "?s' < fst grid" "?h' < snd grid" "b' < BATCH_NUM a"
    using sg u'(1,2) by (auto simp: schedule_in_grid_def list_all_iff)
  note inj = distinct_offsetsD [OF no g(1) g'(1) g(2) g'(2) g(3) g'(3)]
  note d = live_lane_dims [OF u(3)] and d' = live_lane_dims [OF u'(3)]
  from w w' show "v = v'"
  proof (elim disjE conjE)
    assume "i = x1_addr a ?s ?h b k" "i = x1_addr a ?s' ?h' b' k'" "v = rot1 a mem ?s ?h b k" "v' = rot1 a mem ?s' ?h' b' k'"
    with inj [OF d(1) d'(1)] show ?thesis by (simp add: x1_elem)
  next
    assume "i = x1_addr a ?s ?h b k" "i = x2_addr a ?s' ?h' b' k'" "v = rot1 a mem ?s ?h b k" "v' = rot2 a mem ?s' ?h' b' k'"
    with inj [OF d(1) d'(2)] d(3) show ?thesis by (simp add: x1_elem x2_elem)
  next
    assume "i = x2_addr a ?s ?h b k" "i = x1_addr a ?s' ?h' b' k'" "v = rot2 a mem ?s ?h b k" "v' = rot1 a mem ?s' ?h' b' k'"
    with inj [OF d(2) d'(1)] d'(3) show ?thesis by (simp add: x1_elem x2_elem)
  next
    assume "i = x2_addr a ?s ?h b k" "i = x2_addr a ?s' ?h' b' k'" "v = rot2 a mem ?s ?h b k" "v' = rot2 a mem ?s' ?h' b' k'"
    with inj [OF d(2) d'(2)] show ?thesis by (simp add: x1_elem x2_elem)
  qed
qed

lemma schedule_result:
  fixes mem :: "'a::{zero,plus,minus,times} heap"
  assumes decl: "buffers_declared a grid mem" and no: "distinct_offsets a grid"
    and sg: "schedule_in_grid a grid sched"
    and len: "length buf = length (mem ! output_ptr a)"
  shows "\<exists>r. run_schedule a sched (mem[output_ptr a := buf]) = Inr r
           \<and> (\<forall>u\<in>set sched. \<forall>b\<in>set (snd u). \<forall>k<live_lanes a.
                 r ! output_ptr a ! x1_addr a (fst (fst u)) (snd (fst u)) b k
                   = rot1 a mem (fst (fst u)) (snd (fst u)) b k
               \<and> r ! output_ptr a ! x2_addr a (fst (fst u)) (snd (fst u)) b k
                   = rot2 a mem (fst (fst u)) (snd (fst u)) b k)"
proof -
  let ?ws = "schedule_writes a mem sched"
  let ?r = "mem[output_ptr a := apply_writes ?ws buf]"
  have run: "run_schedule a sched (mem[output_ptr a := buf]) = Inr ?r"
    by (rule run_schedule_closed [OF decl sg len])
  have sv: "single_valued (set ?ws)"
    by (rule schedule_writes_single_valued [OF no sg])
  from decl have outp: "output_ptr a < length mem"
    and ao: "activation_in_bounds a grid (length (mem ! output_ptr a))"
    by (simp_all add: buffers_declared_def declared_in_bounds_def)
  have "?r ! output_ptr a ! x1_addr a (fst (fst u)) (snd (fst u)) b k = rot1 a mem (fst (fst u)) (snd (fst u)) b k
      \<and> ?r ! output_ptr a ! x2_addr a (fst (fst u)) (snd (fst u)) b k = rot2 a mem (fst (fst u)) (snd (fst u)) b k"
    if u: "u \<in> set sched" and b: "b \<in> set (snd u)" and k: "k < live_lanes a" for u b k
  proof -
    let ?s = "fst (fst u)" and ?h = "snd (fst u)"
    have g: "?s < fst grid" "?h < snd grid" "b < BATCH_NUM a"
      using sg u b by (auto simp: schedule_in_grid_def list_all_iff)
    have row: "row_in_bounds a ?s ?h b (length buf)"
      using ao g len by (simp add: activation_in_bounds_def)
    have m1: "(x1_addr a ?s ?h b k, rot1 a mem ?s ?h b k) \<in> set ?ws"
      and m2: "(x2_addr a ?s ?h b k, rot2 a mem ?s ?h b k) \<in> set ?ws"
      unfolding in_schedule_writes in_step_writes using u b k by blast+
    have "apply_writes ?ws buf ! x1_addr a ?s ?h b k = rot1 a mem ?s ?h b k"
      by (rule apply_writes_written [OF sv m1 row_x1 [OF row live_lane_dims(3) [OF k]]])
    moreover have "apply_writes ?ws buf ! x2_addr a ?s ?h b k = rot2 a mem ?s ?h b k"
      by (rule apply_writes_written [OF sv m2 row_x2 [OF row live_lane_dims(3) [OF k]]])
    ultimately show ?thesis using outp by simp
  qed
  with run show ?thesis by blast
qed

lemma schedule_order:
  fixes mem :: "'a::{zero,plus,minus,times} heap"
  assumes decl: "buffers_declared a grid mem" and no: "distinct_offsets a grid"
    and sg: "schedule_in_grid a grid sched" and sg': "schedule_in_grid a grid sched'"
    and same: "set (schedule_writes a mem sched') = set (schedule_writes a mem sched)"
  shows "run_schedule a sched' mem = run_schedule a sched mem"
  by (simp add: run_schedule_writes [OF decl sg] run_schedule_writes [OF decl sg']
      apply_writes_set_cong [OF schedule_writes_single_valued [OF no sg] same])

lemma canonical_in_grid:
  "schedule_in_grid a grid (map (\<lambda>u. (u, [0..<BATCH_NUM a])) (grid_units grid))"
  by (auto simp: schedule_in_grid_def grid_units_def list_all_iff)

lemma launch_result:
  fixes mem :: "'a::{zero,plus,minus,times} heap"
  assumes decl: "buffers_declared a grid mem" and no: "distinct_offsets a grid"
    and s: "s < fst grid" and b: "b < BATCH_NUM a" and h: "h < snd grid" and k: "k < live_lanes a"
  shows "\<exists>r. launch a grid mem = Inr r
           \<and> r ! output_ptr a ! x1_addr a s h b k = rot1 a mem s h b k
           \<and> r ! output_ptr a ! x2_addr a s h b k = rot2 a mem s h b k"
proof -
  let ?sched = "map (\<lambda>u. (u, [0..<BATCH_NUM a])) (grid_units grid)"
  have u: "((s, h), [0..<BATCH_NUM a]) \<in> set ?sched"
    using s h by (auto simp: grid_units_def)
  from schedule_result [OF decl no canonical_in_grid refl]
  obtain r where r: "run_schedule a ?sched (mem[output_ptr a := mem ! output_ptr a]) = Inr r"
    and w: "\<forall>u\<in>set ?sched. \<forall>b\<in>set (snd u). \<forall>k<live_lanes a.
                 r ! output_ptr a ! x1_addr a (fst (fst u)) (snd (fst u)) b k
                   = rot1 a mem (fst (fst u)) (snd (fst u)) b k
               \<and> r ! output_ptr a ! x2_addr a (fst (fst u)) (snd (fst u)) b k
                   = rot2 a mem (fst (fst u)) (snd (fst u)) b k"
    by blast
  from w [rule_format, OF u, of b k] b k
  have "r ! output_ptr a ! x1_addr a s h b k = rot1 a mem s h b k
      \<and> r ! output_ptr a ! x2_addr a s h b k = rot2 a mem s h b k" by simp
  moreover from r have "launch a grid mem = Inr r" by (simp add: launch_def)
  ultimately show ?thesis by blast
qed

text \<open>
  C1, amended. A launch of the kernel over the grid of sequence positions and heads
  returns, and for every position \<open>s\<close>, batch \<open>b\<close>, head \<open>h\<close> and lane \<open>k < head_dim div 2\<close>
  the output element at \<open>(s, b, h, k)\<close> is \<open>x1 * cos - x2 * sin\<close> and the one at
  \<open>(s, b, h, k + head_dim div 2)\<close> is \<open>x1 * sin + x2 * cos\<close>, where \<open>x1\<close> and \<open>x2\<close> are the input
  elements at these two places and \<open>cos\<close> and \<open>sin\<close> are the table entries at row
  \<open>s mod seq_len\<close>, column \<open>k\<close>; provided that distinct elements of the tensor have distinct
  offsets under the strides passed, that the buffers hold the declared tensors and
  tables, the output buffer being none of those read, and that the block covers half the
  head dimension. Evenness of the head dimension is not needed.
\<close>

theorem kernel_rotates_pairs:
  fixes mem :: "'a::{zero,plus,minus,times} heap"
  assumes "buffers_declared a grid mem" and "distinct_offsets a grid"
    and "head_dim a div 2 \<le> BLOCK_SIZE a"
    and "s < fst grid" and "b < BATCH_NUM a" and "h < snd grid" and "k < head_dim a div 2"
  shows "\<exists>r. launch a grid mem = Inr r
           \<and> element a r (output_ptr a) s b h k
               = element a mem (input_ptr a) s b h k
                   * table_entry mem (cos_ptr a) (cos_stride a) (s mod seq_len a) k
                 - element a mem (input_ptr a) s b h (k + head_dim a div 2)
                   * table_entry mem (sin_ptr a) (sin_stride a) (s mod seq_len a) k
           \<and> element a r (output_ptr a) s b h (k + head_dim a div 2)
               = element a mem (input_ptr a) s b h k
                   * table_entry mem (sin_ptr a) (sin_stride a) (s mod seq_len a) k
                 + element a mem (input_ptr a) s b h (k + head_dim a div 2)
                   * table_entry mem (cos_ptr a) (cos_stride a) (s mod seq_len a) k"
proof -
  have k: "k < live_lanes a" using assms(3,7) by (simp add: live_lanes_def)
  from launch_result [OF assms(1,2,4,5,6) k] show ?thesis
    by (simp add: element_def table_entry_def x1_addr_def x2_addr_def rot1_def rot2_def
        cos_at_def sin_at_def add.commute add.left_commute)
qed

lemma ex_declared: "buffers_declared ex_args (2, 1) ex_mem"
  by (auto simp: buffers_declared_def declared_in_bounds_def activation_in_bounds_def row_in_bounds_def
      table_in_bounds_def ex_args_def ex_mem_def)

lemma ex_non_overlapping: "non_overlapping ex_args (2, 1)"
  by (simp add: non_overlapping_def ex_args_def)

lemma ex_distinct: "distinct_offsets ex_args (2, 1)"
  by (rule non_overlapping_distinct [OF ex_non_overlapping])

theorem kernel_rotates_pairs_witness:
  "\<exists>r. launch ex_args (2, 1) ex_mem = Inr r
      \<and> element ex_args r 1 1 1 0 1 = 14 * 3 - 16 * 7
      \<and> element ex_args r 1 1 1 0 3 = 14 * 7 + 16 * 3"
  using kernel_rotates_pairs [OF ex_declared ex_distinct, of 1 1 0 1]
  by (simp add: ex_args_def ex_mem_def element_def table_entry_def)

lemmas kernel_eval_defs =
  launch_def grid_units_def kernel_unit_def batch_step_def bind_err_def
  tl_load_def tl_store_def store_lane_def lane_mask_def head_dim_offset_def head_dim_mid_def
  cos_offset_def sin_offset_def x1_offset_def x2_offset_def y1_def y2_def upt_rec

lemma ov_launch: "launch ov_args (2, 1) ov_mem = Inr [[1, 2], [- 4, 7, 0, 0], [1, 2], [0, 3]]"
  by (simp add: kernel_eval_defs ov_args_def ov_mem_def)

text \<open>
  C1 as stated fails where two positions share their offsets: the program instance of
  position 1 overwrites what that of position 0 stored, and the output element at
  \<open>(0, 0, 0, 0)\<close> is \<open>- 4\<close>, not \<open>x1 * cos - x2 * sin = 1 * 1 - 2 * 0 = 1\<close>.
\<close>

theorem overlapping_positions_overwrite:
  "launch ov_args (2, 1) ov_mem = Inr [[1, 2], [- 4, 7, 0, 0], [1, 2], [0, 3]]
   \<and> element ov_args [[1, 2], [- 4, 7, 0, 0], [1, 2], [0, 3]] (output_ptr ov_args) 0 0 0 0 = - 4
   \<and> element ov_args ov_mem (input_ptr ov_args) 0 0 0 0
         * table_entry ov_mem (cos_ptr ov_args) (cos_stride ov_args) (0 mod seq_len ov_args) 0
       - element ov_args ov_mem (input_ptr ov_args) 0 0 0 (0 + head_dim ov_args div 2)
         * table_entry ov_mem (sin_ptr ov_args) (sin_stride ov_args) (0 mod seq_len ov_args) 0
       = 1"
  using ov_launch by (simp add: element_def table_entry_def ov_args_def ov_mem_def)

lemma covering_writes:
  assumes units: "set (map fst sched) = set (grid_units grid)"
    and batches: "\<And>u. u \<in> set sched \<Longrightarrow> set (snd u) = {0..<BATCH_NUM a}"
  shows "set (schedule_writes a mem sched)
           = {(i, v). \<exists>p\<in>set (grid_units grid). \<exists>b<BATCH_NUM a.
                        (i, v) \<in> set (step_writes a mem (fst p) (snd p) b)}"
proof -
  have "(i, v) \<in> set (schedule_writes a mem sched) \<longleftrightarrow>
          (\<exists>p\<in>set (grid_units grid). \<exists>b<BATCH_NUM a. (i, v) \<in> set (step_writes a mem (fst p) (snd p) b))"
    for i v
  proof
    assume "(i, v) \<in> set (schedule_writes a mem sched)"
    then obtain u b where u: "u \<in> set sched" and b: "b \<in> set (snd u)"
      and m: "(i, v) \<in> set (step_writes a mem (fst (fst u)) (snd (fst u)) b)"
      unfolding in_schedule_writes by blast
    from u units have "fst u \<in> set (grid_units grid)" by force
    moreover from b batches [OF u] have "b < BATCH_NUM a" by simp
    ultimately show "\<exists>p\<in>set (grid_units grid). \<exists>b<BATCH_NUM a. (i, v) \<in> set (step_writes a mem (fst p) (snd p) b)"
      using m by blast
  next
    assume "\<exists>p\<in>set (grid_units grid). \<exists>b<BATCH_NUM a. (i, v) \<in> set (step_writes a mem (fst p) (snd p) b)"
    then obtain p b where p: "p \<in> set (grid_units grid)" and b: "b < BATCH_NUM a"
      and m: "(i, v) \<in> set (step_writes a mem (fst p) (snd p) b)" by blast
    from p units have "p \<in> fst ` set sched" by simp
    then obtain u where u: "u \<in> set sched" and "fst u = p" by auto
    moreover from b batches [OF u] have "b \<in> set (snd u)" by simp
    ultimately show "(i, v) \<in> set (schedule_writes a mem sched)"
      unfolding in_schedule_writes using m by blast
  qed
  then show ?thesis by auto
qed

lemma covering_in_grid:
  assumes units: "set (map fst sched) = set (grid_units grid)"
    and batches: "\<And>u. u \<in> set sched \<Longrightarrow> set (snd u) = {0..<BATCH_NUM a}"
  shows "schedule_in_grid a grid sched"
proof -
  have "fst (fst u) < fst grid \<and> snd (fst u) < snd grid \<and> (\<forall>b\<in>set (snd u). b < BATCH_NUM a)"
    if u: "u \<in> set sched" for u
  proof -
    from u units have "fst u \<in> set (grid_units grid)" by force
    then have "fst (fst u) < fst grid \<and> snd (fst u) < snd grid"
      by (auto simp: grid_units_def)
    then show ?thesis using batches [OF u] by simp
  qed
  then show ?thesis by (simp add: schedule_in_grid_def list_all_iff)
qed

lemma store_offset_addr:
  assumes "k < BLOCK_SIZE a"
  shows "store_offset a (s, b, h, half, k)
           = elem_addr a s h b (if half then head_dim a div 2 + k else k)"
  using assms by (simp add: store_offset_def x1_offset_addr x2_offset_addr x1_elem x2_elem)

lemma store_offset_inj:
  assumes no: "distinct_offsets a grid"
  shows "inj_on (store_offset a) (work_items a grid)"
proof (rule inj_onI)
  fix w w' assume w: "w \<in> work_items a grid" and w': "w' \<in> work_items a grid"
    and eq: "store_offset a w = store_offset a w'"
  obtain s b h half k where wt: "w = (s, b, h, half, k)" by (cases w) auto
  obtain s' b' h' half' k' where wt': "w' = (s', b', h', half', k')" by (cases w') auto
  from w wt have g: "s < fst grid" "b < BATCH_NUM a" "h < snd grid" "k < BLOCK_SIZE a" "k < head_dim a div 2"
    by (simp_all add: work_items_def)
  from w' wt' have g': "s' < fst grid" "b' < BATCH_NUM a" "h' < snd grid" "k' < BLOCK_SIZE a" "k' < head_dim a div 2"
    by (simp_all add: work_items_def)
  let ?d = "if half then head_dim a div 2 + k else k"
  let ?d' = "if half' then head_dim a div 2 + k' else k'"
  have d: "?d < head_dim a" "?d' < head_dim a" using g(5) g'(5) by auto
  have "elem_addr a s h b ?d = elem_addr a s' h' b' ?d'"
    using eq by (simp only: wt wt' store_offset_addr [OF g(4)] store_offset_addr [OF g'(4)])
  from distinct_offsetsD [OF no g(1) g'(1) g(3) g'(3) g(2) g'(2) d this]
  have e: "s = s'" "h = h'" "b = b'" "?d = ?d'" by simp_all
  from e(4) g(5) g'(5) have "half = half' \<and> k = k'" by (auto split: if_splits)
  with e show "w = w'" by (simp add: wt wt')
qed

lemma bind_err_Inr [simp]: "bind_err r Inr = r"
  by (cases r) (simp_all add: bind_err_def)

lemma run_schedule_Nil: "run_schedule a [] = Inr"
  by (rule ext) simp

lemma unit_result:
  fixes mem :: "'a::{zero,plus,minus,times} heap"
  assumes decl: "buffers_declared a grid mem" and no: "distinct_offsets a grid"
    and s: "s < fst grid" and h: "h < snd grid"
    and len: "length buf = length (mem ! output_ptr a)"
  shows "\<exists>r. rope_kernel_fw a s h (mem[output_ptr a := buf]) = Inr r
           \<and> (\<forall>b<BATCH_NUM a. \<forall>k<live_lanes a.
                 r ! output_ptr a ! x1_addr a s h b k = rot1 a mem s h b k
               \<and> r ! output_ptr a ! x2_addr a s h b k = rot2 a mem s h b k)"
proof -
  let ?sched = "[((s, h), [0..<BATCH_NUM a])]"
  have sg: "schedule_in_grid a grid ?sched"
    using s h by (simp add: schedule_in_grid_def list_all_iff)
  from schedule_result [OF decl no sg len] show ?thesis
    by (auto simp: rope_kernel_fw_def run_schedule_Nil)
qed

lemma contiguous_non_overlapping:
  assumes "contiguous x"
  shows "non_overlapping (launch_args x output cos_t sin_t) (size0 x, size2 x)"
    and "non_overlapping (launch_args (transpose01 x) output cos_t sin_t) (size1 x, size2 x)"
  using assms
  by (simp_all add: contiguous_def non_overlapping_def launch_args_def transpose01_def mult.assoc)

text \<open>
  C10, amended. When the strides passed are those of a non-overlapping layout (the
  features of all heads fit in one batch row and all batch rows of a position in one
  sequence row, or the same with the two axes exchanged, as for a contiguous tensor and
  for its transpose) and the buffers hold the declared tensors and tables, the output
  buffer being none of those read: the stores of distinct work items
  \<open>(s, b, h, half, lane)\<close> go to distinct offsets; what a program instance stores does not
  depend on the contents of the output buffer; and every schedule that runs each grid unit
  once, with its batch iterations in any order, ends in the heap that \<open>launch\<close> ends in.
  The strides that \<open>rope\<close> passes for a contiguous tensor, in either format, are of this
  kind.
\<close>

theorem kernel_order_independent:
  fixes mem :: "'a::{zero,plus,minus,times} heap"
  assumes decl: "buffers_declared a grid mem" and layout: "non_overlapping a grid"
    and units: "mset (map fst sched) = mset (grid_units grid)"
    and batches: "list_all (\<lambda>u. mset (snd u) = mset [0..<BATCH_NUM a]) sched"
  shows "inj_on (store_offset a) (work_items a grid)
       \<and> (\<exists>r. launch a grid mem = Inr r \<and> run_schedule a sched mem = Inr r)
       \<and> (\<forall>buf buf'. length buf = length (mem ! output_ptr a)
                      \<and> length buf' = length (mem ! output_ptr a) \<longrightarrow>
            (\<forall>s<fst grid. \<forall>h<snd grid. \<exists>r r'.
                rope_kernel_fw a s h (mem[output_ptr a := buf]) = Inr r
              \<and> rope_kernel_fw a s h (mem[output_ptr a := buf']) = Inr r'
              \<and> (\<forall>b half k. (s, b, h, half, k) \<in> work_items a grid \<longrightarrow>
                   r ! output_ptr a ! store_offset a (s, b, h, half, k)
                   = r' ! output_ptr a ! store_offset a (s, b, h, half, k))))
       \<and> (contiguous x \<longrightarrow>
            non_overlapping (launch_args x output cos_t sin_t) (size0 x, size2 x)
          \<and> non_overlapping (launch_args (transpose01 x) output cos_t sin_t) (size1 x, size2 x))"
proof (intro conjI allI impI)
  show "inj_on (store_offset a) (work_items a grid)"
    by (rule store_offset_inj [OF non_overlapping_distinct [OF layout]])
next
  note no = non_overlapping_distinct [OF layout]
  let ?canon = "map (\<lambda>u. (u, [0..<BATCH_NUM a])) (grid_units grid)"
  have su: "set (map fst sched) = set (grid_units grid)"
    using units by (rule mset_eq_setD)
  have sb: "set (snd u) = {0..<BATCH_NUM a}" if "u \<in> set sched" for u
  proof -
    from batches that have "mset (snd u) = mset [0..<BATCH_NUM a]" by (simp add: list_all_iff)
    from mset_eq_setD [OF this] show ?thesis by simp
  qed
  have cu: "set (map fst ?canon) = set (grid_units grid)" by (simp add: o_def)
  have cb: "set (snd u) = {0..<BATCH_NUM a}" if "u \<in> set ?canon" for u
    using that by auto
  have "set (schedule_writes a mem sched)
           = {(i, v). \<exists>p\<in>set (grid_units grid). \<exists>b<BATCH_NUM a.
                        (i, v) \<in> set (step_writes a mem (fst p) (snd p) b)}"
    by (rule covering_writes [OF su sb])
  moreover have "set (schedule_writes a mem ?canon)
           = {(i, v). \<exists>p\<in>set (grid_units grid). \<exists>b<BATCH_NUM a.
                        (i, v) \<in> set (step_writes a mem (fst p) (snd p) b)}"
    by (rule covering_writes [OF cu cb])
  ultimately have same: "set (schedule_writes a mem sched) = set (schedule_writes a mem ?canon)"
    by simp
  have "run_schedule a sched mem = run_schedule a ?canon mem"
    by (rule schedule_order [OF decl no canonical_in_grid covering_in_grid [OF su sb] same])
  moreover have "run_schedule a ?canon mem
      = Inr (mem[output_ptr a := apply_writes (schedule_writes a mem ?canon) (mem ! output_ptr a)])"
    by (rule run_schedule_writes [OF decl canonical_in_grid])
  ultimately show "\<exists>r. launch a grid mem = Inr r \<and> run_schedule a sched mem = Inr r"
    by (simp add: launch_def)
next
  note no = non_overlapping_distinct [OF layout]
  fix buf buf' :: "'a list" and s h
  assume len: "length buf = length (mem ! output_ptr a) \<and> length buf' = length (mem ! output_ptr a)"
    and s: "s < fst grid" and h: "h < snd grid"
  from unit_result [OF decl no s h, of buf] len obtain r
    where r: "rope_kernel_fw a s h (mem[output_ptr a := buf]) = Inr r"
      and w: "\<forall>b<BATCH_NUM a. \<forall>k<live_lanes a.
                 r ! output_ptr a ! x1_addr a s h b k = rot1 a mem s h b k
               \<and> r ! output_ptr a ! x2_addr a s h b k = rot2 a mem s h b k"
    by blast
  from unit_result [OF decl no s h, of buf'] len obtain r'
    where r': "rope_kernel_fw a s h (mem[output_ptr a := buf']) = Inr r'"
      and w': "\<forall>b<BATCH_NUM a. \<forall>k<live_lanes a.
                 r' ! output_ptr a ! x1_addr a s h b k = rot1 a mem s h b k
               \<and> r' ! output_ptr a ! x2_addr a s h b k = rot2 a mem s h b k"
    by blast
  have "r ! output_ptr a ! store_offset a (s, b, h, half, k)
          = r' ! output_ptr a ! store_offset a (s, b, h, half, k)"
    if "(s, b, h, half, k) \<in> work_items a grid" for b half k
  proof -
    from that have b: "b < BATCH_NUM a" and kb: "k < BLOCK_SIZE a" and k: "k < live_lanes a"
      by (simp_all add: work_items_def live_lanes_def)
    have "store_offset a (s, b, h, half, k) = (if half then x2_addr a s h b k else x1_addr a s h b k)"
      by (simp add: store_offset_addr [OF kb] x1_elem x2_elem)
    with w [rule_format, OF b k] w' [rule_format, OF b k] show ?thesis by simp
  qed
  with r r' show "\<exists>r r'. rope_kernel_fw a s h (mem[output_ptr a := buf]) = Inr r
      \<and> rope_kernel_fw a s h (mem[output_ptr a := buf']) = Inr r'
      \<and> (\<forall>b half k. (s, b, h, half, k) \<in> work_items a grid \<longrightarrow>
           r ! output_ptr a ! store_offset a (s, b, h, half, k)
           = r' ! output_ptr a ! store_offset a (s, b, h, half, k))"
    by blast
next
  assume "contiguous x"
  then show "non_overlapping (launch_args x output cos_t sin_t) (size0 x, size2 x)"
    by (rule contiguous_non_overlapping)
next
  assume "contiguous x"
  then show "non_overlapping (launch_args (transpose01 x) output cos_t sin_t) (size1 x, size2 x)"
    by (rule contiguous_non_overlapping)
qed

theorem kernel_order_independent_witness:
  "inj_on (store_offset ex_args) (work_items ex_args (2, 1))
   \<and> (\<exists>r. launch ex_args (2, 1) ex_mem = Inr r
          \<and> run_schedule ex_args [((1, 0), [1, 0]), ((0, 0), [0, 1])] ex_mem = Inr r)"
proof -
  have u: "mset (map fst [((1, 0), [1, 0]), ((0, 0), [0, 1 :: nat])]) = mset (grid_units (2, 1))"
    by (simp add: grid_units_def upt_rec)
  have b: "list_all (\<lambda>u. mset (snd u) = mset [0..<BATCH_NUM ex_args])
             [((1 :: nat, 0 :: nat), [1, 0]), ((0, 0), [0, 1 :: nat])]"
    by (simp add: ex_args_def upt_rec)
  from kernel_order_independent [OF ex_declared ex_non_overlapping u b] show ?thesis
    by blast
qed

text \<open>
  C10 as stated fails where two positions share their offsets: the work items
  \<open>(0, 0, 0, first half, 0)\<close> and \<open>(1, 0, 0, first half, 0)\<close> store at the same offset, and
  running the two program instances in the other order ends in another heap.
\<close>

theorem overlapping_positions_order_dependent:
  "store_offset ov_args (0, 0, 0, False, 0) = store_offset ov_args (1, 0, 0, False, 0)
   \<and> launch ov_args (2, 1) ov_mem = Inr [[1, 2], [- 4, 7, 0, 0], [1, 2], [0, 3]]
   \<and> run_schedule ov_args [((1, 0), [0]), ((0, 0), [0])] ov_mem
       = Inr [[1, 2], [1, 2, 0, 0], [1, 2], [0, 3]]"
  using ov_launch by (simp add: kernel_eval_defs store_offset_def ov_args_def ov_mem_def)




lemma tl_load_error: "tl_load mem p offs m = Inl e \<Longrightarrow> e = OutOfBounds"
  by (auto simp: tl_load_def split: if_splits)

lemma tl_store_error: "tl_store mem p offs v m = Inl e \<Longrightarrow> e = OutOfBounds"
  by (auto simp: tl_store_def split: if_splits)


lemma bind_err_Inl_iff:
  "bind_err r f = Inl e \<longleftrightarrow> r = Inl e \<or> (\<exists>v. r = Inr v \<and> f v = Inl e)"
  by (cases r) (simp_all add: bind_err_def)


lemma batch_step_error:
  "batch_step a s h cosv sinv b mem = Inl e \<Longrightarrow> e = OutOfBounds"
  unfolding batch_step_def bind_err_Inl_iff
  by (blast dest: tl_load_error tl_store_error)


lemma batch_loop_error:
  "batch_loop a s h cosv sinv bs mem = Inl e \<Longrightarrow> e = OutOfBounds"
proof (induction bs arbitrary: mem)
  case Nil
  then show ?case by simp
next
  case (Cons b bs)
  then show ?case
    by (auto simp: bind_err_Inl_iff dest: batch_step_error)
qed


lemma kernel_unit_error:
  "kernel_unit a s h bs mem = Inl e \<Longrightarrow> e = OutOfBounds \<or> e = DivisionByZero"
  by (auto simp: kernel_unit_def bind_err_Inl_iff split: if_splits
      dest: batch_loop_error tl_load_error)


lemma run_schedule_error:
  "run_schedule a sched mem = Inl e \<Longrightarrow> e = OutOfBounds \<or> e = DivisionByZero"
proof (induction sched arbitrary: mem)
  case Nil
  then show ?case by simp
next
  case (Cons u us)
  then show ?case
    by (auto simp: bind_err_Inl_iff dest: kernel_unit_error)
qed


lemma launch_error: "launch a grid mem = Inl e \<Longrightarrow> e = OutOfBounds \<or> e = DivisionByZero"
  unfolding launch_def by (rule run_schedule_error)

lemmas eval_defs =
  rope_def rope_sbhd_def empty_like_def is_non_overlapping_and_dense_def dense_like_def
  infer_dense_strides_def should_swap_def
  numel_def slice_rows_def map_table_def tbl_stride0_def launch_args_def next_power_of_2_def
  compile_and_launch_def arange_accepted_def pow2_from.simps launch_def grid_units_def kernel_unit_def batch_step_def bind_err_def
  tl_load_def tl_store_def store_lane_def lane_mask_def head_dim_offset_def head_dim_mid_def
  cos_offset_def sin_offset_def x1_offset_def x2_offset_def y1_def y2_def upt_rec
  transpose01_def


lemma ex_odd_run:
  "rope cos sin (\<lambda>i. 7) ex_odd_state ex_odd_tensor ex_one_row ''sbhd''
     = Inr (\<lparr>data_ptr = 2, size0 = 1, size1 = 1, size2 = 1, size3 = 3,
                stride0 = 3, stride1 = 3, stride2 = 3, stride3 = 1\<rparr>,
            \<lparr>heap = [[1, 2, 3], [0], [1, 2, 7], [1], [0]],
             ctx = \<lparr>ctx_cos = Some \<lparr>tbl_ptr = 3, tbl_rows = 1, tbl_cols = 1\<rparr>,
                    ctx_sin = Some \<lparr>tbl_ptr = 4, tbl_rows = 1, tbl_cols = 1\<rparr>,
                    ctx_BLOCK_SIZE = Some 1, ctx_tensor_format = Some ''sbhd''\<rparr>\<rparr>)"
  by (simp add: eval_defs ex_odd_state_def ex_odd_tensor_def ex_one_row_def)

lemma ex_short_run:
  "rope cos sin (\<lambda>i. 0) ex_short_state ex_short_tensor ex_one_row ''sbhd'' = Inl OutOfBounds"
  by (simp add: eval_defs ex_short_state_def ex_short_tensor_def ex_one_row_def)

lemma transpose01_twice [simp]: "transpose01 (transpose01 t) = t"
  by (simp add: transpose01_def)









text \<open>
  C6, amended. \<open>rope\<close> fails with \<open>ValueError\<close> when the tag is neither \<open>bshd\<close> nor \<open>sbhd\<close>,
  and then before anything else is done: no buffer is allocated, no kernel is launched
  and \<open>ctx\<close> is not touched.
\<close>

theorem rope_rejects_unknown_format:
  assumes "tensor_format \<noteq> ''bshd''" and "tensor_format \<noteq> ''sbhd''"
  shows "rope cosf sinf uninit st t freqs tensor_format = Inl ValueError"
  using assms by (simp add: rope_def)

theorem rope_rejects_unknown_format_witness:
  "rope cos sin (\<lambda>i. 0) ex_state ex_tensor ex_freqs ''hsbd'' = Inl ValueError"
  by (rule rope_rejects_unknown_format) simp_all

text \<open>
  C6 as stated fails: with a head dimension of 3 and a valid tag the call returns a
  result (whose third feature is never written); and with two positions, a table of one
  row and a valid tag the call is not refused either: the kernel is launched and reads
  outside the table.
\<close>

theorem rope_accepts_odd_head_dim:
  "rope cos sin (\<lambda>i. 7) ex_odd_state ex_odd_tensor ex_one_row ''sbhd''
     = Inr (\<lparr>data_ptr = 2, size0 = 1, size1 = 1, size2 = 1, size3 = 3,
                stride0 = 3, stride1 = 3, stride2 = 3, stride3 = 1\<rparr>,
            \<lparr>heap = [[1, 2, 3], [0], [1, 2, 7], [1], [0]],
             ctx = \<lparr>ctx_cos = Some \<lparr>tbl_ptr = 3, tbl_rows = 1, tbl_cols = 1\<rparr>,
                    ctx_sin = Some \<lparr>tbl_ptr = 4, tbl_rows = 1, tbl_cols = 1\<rparr>,
                    ctx_BLOCK_SIZE = Some 1, ctx_tensor_format = Some ''sbhd''\<rparr>\<rparr>)
   \<and> size3 ex_odd_tensor = 3
   \<and> rope cos sin (\<lambda>i. 0) ex_short_state ex_short_tensor ex_one_row ''sbhd'' = Inl OutOfBounds
   \<and> size0 ex_short_tensor = 2 \<and> tbl_rows ex_one_row = 1"
  by (simp add: ex_odd_run ex_short_run) (simp add: ex_odd_tensor_def ex_short_tensor_def ex_one_row_def)

lemma pow2_from_spec:
  assumes "\<exists>i. p = 2 ^ i" and "p = 1 \<or> p div 2 < n"
  shows "(\<exists>i. pow2_from p n = 2 ^ i) \<and> n \<le> pow2_from p n
       \<and> (pow2_from p n = 1 \<or> pow2_from p n div 2 < n)"
  using assms
proof (induction p n rule: pow2_from.induct)
  case (1 p n)
  from "1.prems"(1) obtain i where i: "p = 2 ^ i" by blast
  then have p0: "p \<noteq> 0" by simp
  show ?case
  proof (cases "n \<le> p")
    case True
    then have "pow2_from p n = p" by (subst pow2_from.simps) simp
    with True "1.prems" show ?thesis by simp
  next
    case False
    then have step: "pow2_from p n = pow2_from (2 * p) n"
      using p0 by (subst pow2_from.simps) simp
    have "\<exists>j. 2 * p = 2 ^ j" using i by (intro exI [of _ "Suc i"]) simp
    moreover have "2 * p = 1 \<or> (2 * p) div 2 < n" using False by simp
    ultimately have "(\<exists>i. pow2_from (2 * p) n = 2 ^ i) \<and> n \<le> pow2_from (2 * p) n
       \<and> (pow2_from (2 * p) n = 1 \<or> pow2_from (2 * p) n div 2 < n)"
      using False p0 by (intro "1.IH") simp_all
    then show ?thesis
      unfolding step .
  qed
qed

lemma pow2_from_1_spec:
  "(\<exists>i. pow2_from 1 n = 2 ^ i) \<and> n \<le> pow2_from 1 n
   \<and> (\<forall>j. n \<le> 2 ^ j \<longrightarrow> pow2_from 1 n \<le> 2 ^ j)"
proof -
  let ?r = "pow2_from 1 n"
  have "\<exists>i. (1 :: nat) = 2 ^ i" by (intro exI [of _ 0]) simp
  then have "(\<exists>i. pow2_from 1 n = 2 ^ i) \<and> n \<le> pow2_from 1 n
       \<and> (pow2_from 1 n = 1 \<or> pow2_from 1 n div 2 < n)"
    by (rule pow2_from_spec) simp
  then obtain i where i: "?r = 2 ^ i" and ge: "n \<le> ?r" and lo: "?r = 1 \<or> ?r div 2 < n"
    by blast
  have "?r \<le> 2 ^ j" if n: "n \<le> 2 ^ j" for j
  proof (cases i)
    case 0
    then show ?thesis using i by simp
  next
    case (Suc k)
    with i lo have "(2 :: nat) ^ k < n" by simp
    then have "(2 :: nat) ^ k < 2 ^ j" using n by (rule less_le_trans)
    then have "k < j" by simp
    then have "Suc k \<le> j" by simp
    then have "(2 :: nat) ^ Suc k \<le> 2 ^ j" by (rule power_increasing) simp
    then show ?thesis using i Suc by simp
  qed
  with i ge show ?thesis by blast
qed

lemma next_power_of_2_spec:
  assumes "0 < n"
  shows "(\<exists>i. next_power_of_2 n = 2 ^ i) \<and> n \<le> next_power_of_2 n
       \<and> (\<forall>j. n \<le> 2 ^ j \<longrightarrow> next_power_of_2 n \<le> 2 ^ j)"
  using assms pow2_from_1_spec [of n] by (simp add: next_power_of_2_def)

lemma arange_accepted_iff: "arange_accepted n \<longleftrightarrow> (\<exists>i. n = 2 ^ i)"
proof
  assume "arange_accepted n"
  then show "\<exists>i. n = 2 ^ i"
    using pow2_from_1_spec [of n] by (auto simp: arange_accepted_def)
next
  assume "\<exists>i. n = 2 ^ i"
  then obtain i where i: "n = 2 ^ i" by blast
  from pow2_from_1_spec [of n] have "n \<le> pow2_from 1 n" and "pow2_from 1 n \<le> 2 ^ i"
    using i by auto
  then show "arange_accepted n" using i by (simp add: arange_accepted_def)
qed

lemma next_power_of_2_accepted: "0 < n \<Longrightarrow> arange_accepted (next_power_of_2 n)"
  using next_power_of_2_spec [of n] by (simp add: arange_accepted_iff)

text \<open>
  C3, amended. The kernel reads the tables at row \<open>pid_seq mod seq_len\<close>, where \<open>seq_len\<close>
  is its own argument and not the number of rows of the table: when the buffers hold
  tables of \<open>seq_len\<close> rows, the loads of every position, also of one beyond \<open>seq_len\<close>,
  stay inside the tables and give the entries of that row. \<open>rope\<close> passes the sequence
  length of the activation tensor for \<open>seq_len\<close>, which is also the extent of its grid, so
  that in its launch the row is the position itself.
\<close>

theorem table_row_wraps_on_seq_len_argument:
  fixes mem :: "'a::{zero,plus,minus,times} heap"
  assumes "0 < seq_len a" and "cos_ptr a < length mem" and "sin_ptr a < length mem"
    and "table_in_bounds (seq_len a) (head_dim a div 2) (cos_stride a) (length (mem ! cos_ptr a))"
    and "table_in_bounds (seq_len a) (head_dim a div 2) (sin_stride a) (length (mem ! sin_ptr a))"
  shows "tl_load mem (cos_ptr a) (cos_offset a pid_seq) (lane_mask a)
           = Inr (map (\<lambda>k. if k < head_dim a div 2
                            then table_entry mem (cos_ptr a) (cos_stride a) (pid_seq mod seq_len a) k
                            else 0) [0..<BLOCK_SIZE a])
       \<and> tl_load mem (sin_ptr a) (sin_offset a pid_seq) (lane_mask a)
           = Inr (map (\<lambda>k. if k < head_dim a div 2
                            then table_entry mem (sin_ptr a) (sin_stride a) (pid_seq mod seq_len a) k
                            else 0) [0..<BLOCK_SIZE a])
       \<and> seq_len (launch_args t output cos_t sin_t) = size0 t
       \<and> list_all (\<lambda>u. fst u mod seq_len (launch_args t output cos_t sin_t) = fst u)
            (grid_units (size0 t, size2 t))"
proof -
  have c: "tl_load mem (cos_ptr a) (cos_offset a pid_seq) (lane_mask a)
           = Inr (map (\<lambda>k. if k < head_dim a div 2
                            then table_entry mem (cos_ptr a) (cos_stride a) (pid_seq mod seq_len a) k
                            else 0) [0..<BLOCK_SIZE a])"
    unfolding cos_offset_def head_dim_offset_def lane_mask_upt table_entry_def
    using assms(2) table_row [OF assms(4,1)]
    by (subst tl_load_block) simp_all
  have s: "tl_load mem (sin_ptr a) (sin_offset a pid_seq) (lane_mask a)
           = Inr (map (\<lambda>k. if k < head_dim a div 2
                            then table_entry mem (sin_ptr a) (sin_stride a) (pid_seq mod seq_len a) k
                            else 0) [0..<BLOCK_SIZE a])"
    unfolding sin_offset_def head_dim_offset_def lane_mask_upt table_entry_def
    using assms(3) table_row [OF assms(5,1)]
    by (subst tl_load_block) simp_all
  have g: "list_all (\<lambda>u. fst u mod seq_len (launch_args t output cos_t sin_t) = fst u)
            (grid_units (size0 t, size2 t))"
    by (auto simp: list_all_iff grid_units_def launch_args_def)
  from c s g show ?thesis by (simp add: launch_args_def)
qed

theorem table_row_wraps_on_seq_len_argument_witness:
  "tl_load ex_mem (cos_ptr ex_args) (cos_offset ex_args 5) (lane_mask ex_args) = Inr [2, 3]
   \<and> tl_load ex_mem (sin_ptr ex_args) (sin_offset ex_args 5) (lane_mask ex_args) = Inr [5, 7]"
proof -
  have "0 < seq_len ex_args" "cos_ptr ex_args < length ex_mem" "sin_ptr ex_args < length ex_mem"
    "table_in_bounds (seq_len ex_args) (head_dim ex_args div 2) (cos_stride ex_args)
       (length (ex_mem ! cos_ptr ex_args))"
    "table_in_bounds (seq_len ex_args) (head_dim ex_args div 2) (sin_stride ex_args)
       (length (ex_mem ! sin_ptr ex_args))"
    using ex_declared by (simp_all add: buffers_declared_def declared_in_bounds_def)
  from table_row_wraps_on_seq_len_argument [OF this, of 5] show ?thesis
    by (simp add: ex_args_def ex_mem_def table_entry_def upt_rec)
qed

text \<open>
  C3 as stated fails: with two positions and a table of one row, \<open>rope\<close> does not read
  row \<open>1 mod 1 = 0\<close> for position 1; the read leaves the table.
\<close>

theorem short_table_read_out_of_bounds:
  "rope cos sin (\<lambda>i. 0) ex_short_state ex_short_tensor ex_one_row ''sbhd'' = Inl OutOfBounds
   \<and> size0 ex_short_tensor = 2 \<and> tbl_rows ex_one_row = 1"
  by (simp add: ex_short_run) (simp add: ex_short_tensor_def ex_one_row_def)

lemma length_fold_store_lane [simp]: "length (fold store_lane ls buf) = length buf"
  by (induction ls arbitrary: buf) (auto simp: store_lane_def)













lemma arange_unit: "arange start stop (Suc 0) = map (\<lambda>j. real (start + j)) [0..<stop - start]"
  by (simp add: arange_def)

lemma theta_list: "snd (compute_theta d base) = map (\<lambda>j. base powr (- 2 * real j / real d)) [0..<d div 2]"
proof -
  have e: "- 2 * (real (Suc 0 + j) - 1) / real d = - 2 * real j / real d" for j
    by simp
  have "map (\<lambda>i. base powr (- 2 * (i - 1) / real d)) (arange 1 (d div 2 + 1) 1)
      = map (\<lambda>j. base powr (- 2 * (real (Suc 0 + j) - 1) / real d)) [0..<d div 2]"
    by (simp add: arange_unit o_def del: of_nat_Suc of_nat_add)
  then show ?thesis
    unfolding compute_theta_def snd_conv e .
qed

lemma polar_ones: "polar (ones_like (outer m th)) (outer m th) = map (\<lambda>mi. map (\<lambda>t. Complex (cos (mi * t)) (sin (mi * t))) th) m"
  by (simp add: polar_def ones_like_def outer_def map2_map_map zip_same_conv_map o_def)

lemma cis_table: "snd (precompute_freqs_cis d n base) =
   map (\<lambda>m. map (\<lambda>k. Complex (cos (real m * base powr (- 2 * real k / real d))) (sin (real m * base powr (- 2 * real k / real d)))) [0..<d div 2]) [0..<n]"
  by (simp add: precompute_freqs_cis_def split_def Let_def polar_ones theta_list arange_unit o_def)

text \<open>
  C2. For a positive even \<open>dim\<close>, a positive \<open>seq_len\<close> and a positive \<open>base\<close>, in real
  arithmetic: \<open>compute_theta\<close> gives the angles \<open>base powr (- 2 k / dim)\<close>, and the table of
  \<open>precompute_freqs_cis\<close> has \<open>seq_len\<close> rows of \<open>dim div 2\<close> entries whose entry \<open>(m, k)\<close>
  has the cosine of the angle \<open>m * base powr (- 2 k / dim)\<close> as its real part and the sine
  as its imaginary part. For \<open>dim = 4\<close>, \<open>seq_len = 2\<close>, \<open>base = 10000\<close> the row of position
  0 has cosine 1 and sine 0 throughout, and the angle at \<open>(1, 0)\<close> is 1.
\<close>

theorem build_tables_angles:
  assumes "0 < dim'" and "even dim'" and "0 < seq_len'" and "0 < base"
    and "m < seq_len'" and "k < dim' div 2"
  shows "snd (compute_theta dim' base) ! k = spec_angle base dim' 1 k
       \<and> length (snd (precompute_freqs_cis dim' seq_len' base)) = seq_len'
       \<and> length (snd (precompute_freqs_cis dim' seq_len' base) ! m) = dim' div 2
       \<and> snd (precompute_freqs_cis dim' seq_len' base) ! m ! k
           = Complex (cos (spec_angle base dim' m k)) (sin (spec_angle base dim' m k))
       \<and> snd (precompute_freqs_cis 4 2 10000) ! 0 = [Complex 1 0, Complex 1 0]
       \<and> spec_angle 10000 4 1 0 = 1
       \<and> snd (precompute_freqs_cis 4 2 10000) ! 1 ! 0 = Complex (cos 1) (sin 1)"
proof -
  have a: "snd (compute_theta dim' base) ! k = spec_angle base dim' 1 k"
    using assms(6) by (simp add: theta_list spec_angle_def)
  have b: "length (snd (precompute_freqs_cis dim' seq_len' base)) = seq_len'"
    by (simp add: cis_table)
  have c: "length (snd (precompute_freqs_cis dim' seq_len' base) ! m) = dim' div 2"
    using assms(5) by (simp add: cis_table)
  have d: "snd (precompute_freqs_cis dim' seq_len' base) ! m ! k
           = Complex (cos (spec_angle base dim' m k)) (sin (spec_angle base dim' m k))"
    using assms(5,6) by (simp add: cis_table spec_angle_def)
  have e: "snd (precompute_freqs_cis 4 2 10000) ! 0 = [Complex 1 0, Complex 1 0]"
    by (simp add: cis_table upt_rec)
  have f: "spec_angle 10000 4 1 0 = 1"
    by (simp add: spec_angle_def)
  have g: "snd (precompute_freqs_cis 4 2 10000) ! 1 ! 0 = Complex (cos 1) (sin 1)"
    by (simp add: cis_table upt_rec)
  from a b c d e f g show ?thesis by blast
qed

theorem build_tables_angles_witness:
  "snd (precompute_freqs_cis 4 2 10000) ! 1 ! 1
     = Complex (cos (spec_angle 10000 4 1 1)) (sin (spec_angle 10000 4 1 1))
   \<and> snd (compute_theta 4 10000) ! 1 = spec_angle 10000 4 1 1"
  using build_tables_angles [of 4 2 10000 1 1] by simp

text \<open>
  C5. With the odd dimension 3, \<open>precompute_theta_pos_frequencies\<close> fails, while
  \<open>compute_theta\<close> and \<open>precompute_freqs_cis\<close> print their message and return a table
  built for \<open>3 div 2 = 1\<close> pair.
\<close>

theorem odd_dim_not_rejected:
  "compute_theta 3 10000 = ([DimMustBeEven], [1])
   \<and> precompute_freqs_cis 3 2 10000 = ([DimMustBeEven], [[Complex 1 0], [Complex (cos 1) (sin 1)]])
   \<and> precompute_theta_pos_frequencies 3 2 10000 = Inl AssertionError"
  by (simp add: precompute_freqs_cis_def compute_theta_def arange_def outer_def ones_like_def
      polar_def upt_rec precompute_theta_pos_frequencies_def)

end
